theory Spec2Isabelle
  imports Main "HOL-Library.Sublist"
begin

section \<open>projj: the command base class, \<^verbatim>\<open>lib/base_command.js\<close>\<close>

text \<open>
  A shallow embedding of \<^verbatim>\<open>lib/base_command.js\<close>. The JavaScript values that travel
  through the configuration are JSON data, and what a read of an inherited property
  finds: a member of a built-in prototype. An object is a map from its keys to their
  values (the order of the keys is not kept), and a number is an integer, of which the
  code only asks whether it is zero. Exceptions are values of type \<open>error\<close>. A generator
  that \<^verbatim>\<open>yield\<close>s I/O is a function from a state to a result and the state reached, so
  that what a failed call has left behind can be inspected.
\<close>

subsection \<open>JavaScript values\<close>

datatype json =
    JNull
  | JBool bool
  | JNum int
  | JStr string
  | JArr "json list"
  | JObj "string \<Rightarrow> json option"

type_synonym obj = "string \<Rightarrow> json option"

text \<open>
  A value is JSON data or \<open>Native name\<close>: what a built-in prototype holds under
  \<open>name\<close>, which is a function, or for \<^verbatim>\<open>__proto__\<close> the prototype object itself.
\<close>

datatype jsval = Data json | Native string

datatype error = TypeError | SyntaxError | IOError | ProcessError "string option"

text \<open>The truth value of \<^verbatim>\<open>if (v)\<close>; \<open>None\<close> is \<^verbatim>\<open>undefined\<close>.\<close>

fun truthy :: "jsval option \<Rightarrow> bool" where
  "truthy None = False"
| "truthy (Some (Native name)) = True"
| "truthy (Some (Data JNull)) = False"
| "truthy (Some (Data (JBool b))) = b"
| "truthy (Some (Data (JNum n))) = (n \<noteq> 0)"
| "truthy (Some (Data (JStr s))) = (s \<noteq> [])"
| "truthy (Some (Data (JArr xs))) = True"
| "truthy (Some (Data (JObj m))) = True"

fun string_of_nat :: "nat \<Rightarrow> string" where
  "string_of_nat n =
     (if n < 10 then [''0123456789'' ! n]
      else string_of_nat (n div 10) @ [''0123456789'' ! (n mod 10)])"

declare string_of_nat.simps [simp del]

text \<open>The index properties \<^verbatim>\<open>"0"\<close>, \<^verbatim>\<open>"1"\<close>, ... of an array or a string.\<close>

definition indexed :: "json list \<Rightarrow> obj" where
  "indexed xs = map_of (zip (map string_of_nat [0..<length xs]) xs)"

text \<open>
  The string-keyed members of \<^verbatim>\<open>Object.prototype\<close>, which every object, array, string,
  number and boolean inherits. All are functions but \<^verbatim>\<open>__proto__\<close>, an accessor.
\<close>

definition object_prototype_names :: "string list" where
  "object_prototype_names =
     [''constructor'', ''hasOwnProperty'', ''isPrototypeOf'', ''propertyIsEnumerable'',
      ''toLocaleString'', ''toString'', ''valueOf'', ''__proto__'',
      ''__defineGetter__'', ''__defineSetter__'', ''__lookupGetter__'', ''__lookupSetter__'']"

definition object_prototype :: "string \<Rightarrow> jsval option" where
  "object_prototype k = (if k \<in> set object_prototype_names then Some (Native k) else None)"

text \<open>
  The other built-in prototypes. Which members they have depends on the engine, so
  their names are taken from outside (\<open>builtins\<close> below).
\<close>

datatype kind = ArrayKind | StringKind | NumberKind | BooleanKind | NativeKind

definition inherited :: "(kind \<Rightarrow> string \<Rightarrow> bool) \<Rightarrow> kind \<Rightarrow> string \<Rightarrow> jsval option" where
  "inherited builtins kind k = (if builtins kind k then Some (Native k) else object_prototype k)"

text \<open>
  The property read \<^verbatim>\<open>v[k]\<close>, where \<open>None\<close> as \<open>v\<close> is \<^verbatim>\<open>undefined\<close>: reading a
  property of \<^verbatim>\<open>undefined\<close> or \<^verbatim>\<open>null\<close> throws; otherwise the own properties are
  searched (for a string or an array, its length and its indices), then the prototype
  of the value, then \<^verbatim>\<open>Object.prototype\<close>.
\<close>

fun member :: "(kind \<Rightarrow> string \<Rightarrow> bool) \<Rightarrow> jsval option \<Rightarrow> string \<Rightarrow> error + jsval option" where
  "member builtins None k = Inl TypeError"
| "member builtins (Some (Data JNull)) k = Inl TypeError"
| "member builtins (Some (Data (JBool b))) k = Inr (inherited builtins BooleanKind k)"
| "member builtins (Some (Data (JNum n))) k = Inr (inherited builtins NumberKind k)"
| "member builtins (Some (Data (JStr s))) k =
     Inr (if k = ''length'' then Some (Data (JNum (int (length s))))
          else (case indexed (map (\<lambda>c. JStr [c]) s) k of
                  Some v \<Rightarrow> Some (Data v)
                | None \<Rightarrow> inherited builtins StringKind k))"
| "member builtins (Some (Data (JArr xs))) k =
     Inr (if k = ''length'' then Some (Data (JNum (int (length xs))))
          else (case indexed xs k of
                  Some v \<Rightarrow> Some (Data v)
                | None \<Rightarrow> inherited builtins ArrayKind k))"
| "member builtins (Some (Data (JObj m))) k =
     Inr (case m k of Some v \<Rightarrow> Some (Data v) | None \<Rightarrow> object_prototype k)"
| "member builtins (Some (Native name)) k = Inr (inherited builtins NativeKind k)"

subsection \<open>Objects made by \<^verbatim>\<open>Object.assign\<close>\<close>

text \<open>
  The object that \<^verbatim>\<open>Object.assign({}, ...)\<close> returns has own properties and a
  prototype: \<^verbatim>\<open>Object.prototype\<close> to begin with, and \<^verbatim>\<open>null\<close> or a JSON object or
  array once a source has handed one over under the key \<^verbatim>\<open>__proto__\<close>.
\<close>

datatype prototype = ObjectPrototype | NoPrototype | DataPrototype json

record object =
  own :: obj
  proto :: prototype

text \<open>The own enumerable properties that \<^verbatim>\<open>Object.assign\<close> copies from a source.\<close>

fun own_props :: "json \<Rightarrow> obj" where
  "own_props (JObj m) = m"
| "own_props (JArr xs) = indexed xs"
| "own_props (JStr s) = indexed (map (\<lambda>c. JStr [c]) s)"
| "own_props JNull = Map.empty"
| "own_props (JBool b) = Map.empty"
| "own_props (JNum n) = Map.empty"

text \<open>
  Whether a write of \<^verbatim>\<open>__proto__\<close> to the object reaches the setter of
  \<^verbatim>\<open>Object.prototype\<close>: not if the object or its prototype has an own property of that
  name (JSON.parse makes one), and not if the prototype chain ends before
  \<^verbatim>\<open>Object.prototype\<close>.
\<close>

definition reaches_setter :: "object \<Rightarrow> bool" where
  "reaches_setter t =
     (own t ''__proto__'' = None \<and>
      (case proto t of
         ObjectPrototype \<Rightarrow> True
       | NoPrototype \<Rightarrow> False
       | DataPrototype (JObj m) \<Rightarrow> m ''__proto__'' = None
       | DataPrototype j \<Rightarrow> True))"

text \<open>
  \<^verbatim>\<open>t.__proto__ = v\<close>: the setter takes an object, an array or \<^verbatim>\<open>null\<close> as the new
  prototype and ignores any other value; where the setter is not reached, the write
  makes an own property.
\<close>

definition set_proto :: "object \<Rightarrow> json \<Rightarrow> object" where
  "set_proto t v =
     (if reaches_setter t then
        (case v of
           JObj m \<Rightarrow> t\<lparr>proto := DataPrototype v\<rparr>
         | JArr xs \<Rightarrow> t\<lparr>proto := DataPrototype v\<rparr>
         | JNull \<Rightarrow> t\<lparr>proto := NoPrototype\<rparr>
         | _ \<Rightarrow> t)
      else t\<lparr>own := (own t)(''__proto__'' \<mapsto> v)\<rparr>)"

text \<open>
  One source of \<^verbatim>\<open>Object.assign\<close>: each own property of the source is written to the
  target. Every key but \<^verbatim>\<open>__proto__\<close> becomes an own property of the target.
\<close>

definition assign_source :: "object \<Rightarrow> json \<Rightarrow> object" where
  "assign_source t src =
     (let t' = t\<lparr>own := own t ++ (own_props src)(''__proto__'' := None)\<rparr>
      in case own_props src ''__proto__'' of None \<Rightarrow> t' | Some v \<Rightarrow> set_proto t' v)"

text \<open>\<^verbatim>\<open>Object.assign({}, a, b)\<close>: later sources win, key by key.\<close>

definition object_assign :: "json \<Rightarrow> json \<Rightarrow> object" where
  "object_assign a b =
     assign_source (assign_source \<lparr>own = Map.empty, proto = ObjectPrototype\<rparr> a) b"

text \<open>
  The property read \<^verbatim>\<open>t[k]\<close> on such an object: an own property, else what the
  prototype gives. The getter of \<^verbatim>\<open>__proto__\<close> returns the prototype of the object
  that is read.
\<close>

definition lookup :: "(kind \<Rightarrow> string \<Rightarrow> bool) \<Rightarrow> object \<Rightarrow> string \<Rightarrow> jsval option" where
  "lookup builtins t k =
     (case own t k of
        Some v \<Rightarrow> Some (Data v)
      | None \<Rightarrow>
          (case proto t of
             ObjectPrototype \<Rightarrow> object_prototype k
           | NoPrototype \<Rightarrow> None
           | DataPrototype j \<Rightarrow>
               (case member builtins (Some (Data j)) k of
                  Inl e \<Rightarrow> None
                | Inr v \<Rightarrow> if v = Some (Native ''__proto__'') then Some (Data j) else v)))"

subsection \<open>Strings\<close>

text \<open>
  The replacement text of \<^verbatim>\<open>String.prototype.replace\<close> with a string pattern
  (ECMAScript GetSubstitution, no captures): \<^verbatim>\<open>$$\<close> is a dollar sign, \<^verbatim>\<open>$&\<close> the
  matched text, \<^verbatim>\<open>$`\<close> the text before the match, \<^verbatim>\<open>$'\<close> the text after it; every
  other character stands for itself.
\<close>

fun get_substitution :: "string \<Rightarrow> string \<Rightarrow> string \<Rightarrow> string \<Rightarrow> string" where
  "get_substitution matched pre post (c # d # r) =
     (if c = CHR ''$'' \<and> d = CHR ''$'' then CHR ''$'' # get_substitution matched pre post r
      else if c = CHR ''$'' \<and> d = CHR ''&'' then matched @ get_substitution matched pre post r
      else if c = CHR ''$'' \<and> d = CHR 0x60 then pre @ get_substitution matched pre post r
      else if c = CHR ''$'' \<and> d = CHR 0x27 then post @ get_substitution matched pre post r
      else c # get_substitution matched pre post (d # r))"
| "get_substitution matched pre post [c] = [c]"
| "get_substitution matched pre post [] = []"

text \<open>\<^verbatim>\<open>s.replace(pat, rep)\<close> for strings \<open>pat\<close> and \<open>rep\<close>: the first occurrence only.\<close>

fun replace_from :: "string \<Rightarrow> string \<Rightarrow> string \<Rightarrow> string \<Rightarrow> string" where
  "replace_from pat rep pre s =
     (if prefix pat s
      then pre @ get_substitution pat pre (drop (length pat) s) rep @ drop (length pat) s
      else (case s of [] \<Rightarrow> pre | c # cs \<Rightarrow> replace_from pat rep (pre @ [c]) cs))"

declare replace_from.simps [simp del]

definition js_replace :: "string \<Rightarrow> string \<Rightarrow> string \<Rightarrow> string" where
  "js_replace s pat rep = replace_from pat rep [] s"

text \<open>\<^verbatim>\<open>url.replace(/https?:\/\//, '')\<close>: the leftmost match is removed.\<close>

fun strip_scheme :: "string \<Rightarrow> string" where
  "strip_scheme s =
     (if prefix ''https://'' s then drop 8 s
      else if prefix ''http://'' s then drop 7 s
      else (case s of [] \<Rightarrow> [] | c # cs \<Rightarrow> c # strip_scheme cs))"

declare strip_scheme.simps [simp del]

subsection \<open>Node's \<^verbatim>\<open>path\<close> module (POSIX)\<close>

fun split_slash :: "string \<Rightarrow> string list" where
  "split_slash [] = [[]]"
| "split_slash (c # cs) =
     (if c = CHR ''/'' then [] # split_slash cs
      else (case split_slash cs of [] \<Rightarrow> [[c]] | seg # segs \<Rightarrow> (c # seg) # segs))"

fun join_slash :: "string list \<Rightarrow> string" where
  "join_slash [] = []"
| "join_slash [seg] = seg"
| "join_slash (seg # segs) = seg @ CHR ''/'' # join_slash segs"

text \<open>
  \<^verbatim>\<open>normalizeString\<close>: empty and \<^verbatim>\<open>.\<close> segments are dropped, \<^verbatim>\<open>..\<close> removes the
  segment before it, and is kept only where the path may climb above its start.
  The accumulator holds the segments kept so far, last one first.
\<close>

fun normalize_segments :: "bool \<Rightarrow> string list \<Rightarrow> string list \<Rightarrow> string list" where
  "normalize_segments climb acc [] = rev acc"
| "normalize_segments climb acc (seg # segs) =
     (if seg = [] \<or> seg = ''.'' then normalize_segments climb acc segs
      else if seg = ''..'' then
        (case acc of
           [] \<Rightarrow> normalize_segments climb (if climb then [''..''] else []) segs
         | t # rest \<Rightarrow>
             if t = ''..'' then normalize_segments climb (''..'' # acc) segs
             else normalize_segments climb rest segs)
      else normalize_segments climb (seg # acc) segs)"

definition is_absolute :: "string \<Rightarrow> bool" where
  "is_absolute p = (case p of [] \<Rightarrow> False | c # cs \<Rightarrow> c = CHR ''/'')"

definition normalize :: "string \<Rightarrow> string" where
  "normalize p =
     (if p = [] then ''.''
      else
        let absolute = is_absolute p;
            trailing = (last p = CHR ''/'');
            q = join_slash (normalize_segments (\<not> absolute) [] (split_slash p))
        in if q = [] then (if absolute then ''/'' else if trailing then ''./'' else ''.'')
           else (if absolute then ''/'' else []) @ q @ (if trailing then ''/'' else []))"

definition path_join :: "string list \<Rightarrow> string" where
  "path_join args =
     (let parts = filter (\<lambda>a. a \<noteq> []) args
      in if parts = [] then ''.'' else normalize (join_slash parts))"

text \<open>
  \<^verbatim>\<open>path.dirname\<close>: trailing slashes are skipped, then the last segment; what is left
  of the slash before it is the result.
\<close>

definition dirname :: "string \<Rightarrow> string" where
  "dirname p =
     (case p of
        [] \<Rightarrow> ''.''
      | c # cs \<Rightarrow>
          (case dropWhile (\<lambda>x. x \<noteq> CHR ''/'') (dropWhile (\<lambda>x. x = CHR ''/'') (rev cs)) of
             [] \<Rightarrow> if c = CHR ''/'' then ''/'' else ''.''
           | s # r \<Rightarrow> if c = CHR ''/'' \<and> r = [] then ''//'' else c # rev r))"

subsection \<open>The process and its collaborators\<close>

datatype node = Dir | File string

text \<open>
  The value of a variable in the environment handed to a child:
  \<^verbatim>\<open>JSON.stringify\<close> of a function is \<^verbatim>\<open>undefined\<close>.
\<close>

datatype envval = Text string | Undefined

record run_opt =
  opt_env :: "string \<Rightarrow> envval option"
  opt_cwd :: "string option"

text \<open>
  What \<^verbatim>\<open>runscript\<close> reports: the child exited with status 0, or the promise was
  rejected with an error whose \<^verbatim>\<open>stdio\<close> member (if any) holds the captured
  standard error (if any). While it ran, the child wrote \<open>stdout\<close>, chunk by chunk,
  into the stream it was given, and left the file system as \<open>disk\<close>.
\<close>

datatype status = Exited | Rejected "string option option"

record proc_result =
  status :: status
  stdout :: "string list"
  disk :: "string \<Rightarrow> node option"

text \<open>
  Every effect leaves an event in the log: a line written through a logger, a child
  process started, a chunk of a child's output reaching the child logger, file-system
  calls, the prompt, and the operations of the repository index.
\<close>

datatype event =
    Info string
  | Spawn jsval run_opt
  | ChildOut string
  | Mkdir string
  | Exists string
  | ReadFile string
  | WriteFile string string
  | Prompt string
  | CacheGet "string option"
  | CacheSet string json
  | CacheDump

text \<open>
  Everything the module takes from outside: \<^verbatim>\<open>process.env.HOME\<close> (without it the
  module does not load: \<^verbatim>\<open>path.join\<close> throws on \<^verbatim>\<open>undefined\<close>), the other
  environment variables, \<^verbatim>\<open>process.cwd()\<close>, \<^verbatim>\<open>__dirname\<close>, the libraries
  \<^verbatim>\<open>runscript\<close> (given the command, its options and the file system it finds),
  \<^verbatim>\<open>JSON\<close>, \<^verbatim>\<open>inquirer\<close> (from the default answer to the answer) and
  \<^verbatim>\<open>giturl\<close>, the members of the engine's built-in prototypes, and the stream
  machinery: given the log so far and the chunks in flight, \<open>scheduler\<close> tells how many
  of them reach the child logger while the command waits.
\<close>

record sys =
  home :: string
  environ :: "string \<Rightarrow> string option"
  pwd :: string
  module_dir :: string
  runscript :: "jsval \<Rightarrow> run_opt \<Rightarrow> (string \<Rightarrow> node option) \<Rightarrow> proc_result"
  json_parse :: "string \<Rightarrow> json option"
  json_stringify :: "json \<Rightarrow> string"
  prompt :: "string \<Rightarrow> string"
  giturl_parse :: "string \<Rightarrow> string"
  builtins :: "kind \<Rightarrow> string \<Rightarrow> bool"
  scheduler :: "event list \<Rightarrow> string list \<Rightarrow> nat"

definition process_env :: "sys \<Rightarrow> string \<Rightarrow> string option" where
  "process_env sys = (environ sys)(''HOME'' \<mapsto> home sys)"

text \<open>\<^verbatim>\<open>process.env\<close> as a source of \<^verbatim>\<open>Object.assign\<close>: every value is a string.\<close>

definition env_object :: "sys \<Rightarrow> string \<Rightarrow> envval option" where
  "env_object sys = map_option Text \<circ> process_env sys"

text \<open>A variable inside a template literal: \<^verbatim>\<open>undefined\<close> prints as such.\<close>

definition template :: "string option \<Rightarrow> string" where
  "template v = (case v of None \<Rightarrow> ''undefined'' | Some s \<Rightarrow> s)"

definition configDir :: "sys \<Rightarrow> string" where
  "configDir sys = path_join [home sys, ''.projj'']"

definition configPath :: "sys \<Rightarrow> string" where
  "configPath sys = path_join [configDir sys, ''config.json'']"

definition cachePath :: "sys \<Rightarrow> string" where
  "cachePath sys = path_join [configDir sys, ''cache.json'']"

definition defaults :: "sys \<Rightarrow> json" where
  "defaults sys = JObj (Map.empty(
     ''base'' \<mapsto> JStr (home sys @ ''/projj''),
     ''hooks'' \<mapsto> JObj Map.empty,
     ''alias'' \<mapsto> JObj (Map.empty(''github://'' \<mapsto> JStr ''https://github.com/''))))"

subsection \<open>\<^verbatim>\<open>resolveConfig\<close> and \<^verbatim>\<open>url2dir\<close>\<close>

text \<open>
  \<^verbatim>\<open>path.join\<close> accepts strings only, and only a string has a \<^verbatim>\<open>replace\<close> method
  that can be called.
\<close>

definition as_string :: "jsval \<Rightarrow> error + string" where
  "as_string v = (case v of Data (JStr s) \<Rightarrow> Inr s | _ \<Rightarrow> Inl TypeError)"

text \<open>\<^verbatim>\<open>config.base = b\<close>: the write makes or changes an own property.\<close>

definition set_base :: "object \<Rightarrow> string \<Rightarrow> object" where
  "set_base cfg b = cfg\<lparr>own := (own cfg)(''base'' \<mapsto> JStr b)\<rparr>"

definition resolveConfig :: "sys \<Rightarrow> json \<Rightarrow> json \<Rightarrow> error + object" where
  "resolveConfig sys config dflts =
     (let cfg = object_assign dflts config in
      case member (builtins sys) (lookup (builtins sys) cfg ''base'') ''0'' of
        Inl e \<Rightarrow> Inl e
      | Inr c \<Rightarrow>
          (case lookup (builtins sys) cfg ''base'' of
             None \<Rightarrow> Inl TypeError
           | Some base \<Rightarrow>
               if c = Some (Data (JStr ''.'')) then
                 (case as_string base of
                    Inl e \<Rightarrow> Inl e
                  | Inr b \<Rightarrow> Inr (set_base cfg (path_join [dirname (configPath sys), b])))
               else if c = Some (Data (JStr ''~'')) then
                 (case as_string base of
                    Inl e \<Rightarrow> Inl e
                  | Inr b \<Rightarrow> Inr (set_base cfg (js_replace b ''~'' (home sys))))
               else if c = Some (Data (JStr ''/'')) then Inr cfg
               else
                 (case as_string base of
                    Inl e \<Rightarrow> Inl e
                  | Inr b \<Rightarrow> Inr (set_base cfg (path_join [pwd sys, b])))))"

text \<open>
  \<^verbatim>\<open>resolveConfig\<close> given an object it has returned: \<^verbatim>\<open>Object.assign\<close> copies the
  own properties of a source and nothing else of it.
\<close>

definition resolveAgain :: "sys \<Rightarrow> object \<Rightarrow> json \<Rightarrow> error + object" where
  "resolveAgain sys cfg dflts = resolveConfig sys (JObj (own cfg)) dflts"

definition url2dir :: "sys \<Rightarrow> string \<Rightarrow> string" where
  "url2dir sys url = strip_scheme (giturl_parse sys url)"

subsection \<open>State and effects\<close>

text \<open>
  The command object (\<^verbatim>\<open>this.config\<close>, undefined until loaded, and the index held
  by \<^verbatim>\<open>this.cache\<close>, absent until loaded), the file system, the log, and the chunks
  that children have written into their stream and that have not reached the child
  logger yet.
\<close>

record state =
  config :: "object option"
  cache :: "obj option"
  files :: "string \<Rightarrow> node option"
  trace :: "event list"
  in_flight :: "string list"

type_synonym 'a io = "state \<Rightarrow> (error + 'a) \<times> state"

definition ret :: "'a \<Rightarrow> 'a io" where
  "ret x s = (Inr x, s)"

definition throw :: "error \<Rightarrow> 'a io" where
  "throw e s = (Inl e, s)"

definition lift :: "error + 'a \<Rightarrow> 'a io" where
  "lift r s = (r, s)"

text \<open>Sequencing of \<^verbatim>\<open>yield\<close>s: an exception ends the sequence where it is raised.\<close>

definition andThen :: "'a io \<Rightarrow> ('a \<Rightarrow> 'b io) \<Rightarrow> 'b io" where
  "andThen m f s = (case m s of (Inl e, s') \<Rightarrow> (Inl e, s') | (Inr x, s') \<Rightarrow> f x s')"

definition emit :: "event \<Rightarrow> unit io" where
  "emit ev s = (Inr (), s\<lparr>trace := trace s @ [ev]\<rparr>)"

text \<open>
  While the command waits for a promise, the streams move on: as many of the chunks in
  flight as the scheduler says reach the child logger, oldest first.
\<close>

definition suspend :: "sys \<Rightarrow> unit io" where
  "suspend sys s =
     (let n = scheduler sys (trace s) (in_flight s)
      in (Inr (), s\<lparr>trace := trace s @ map ChildOut (take n (in_flight s)),
                     in_flight := drop n (in_flight s)\<rparr>))"

text \<open>An asynchronous call: it is logged when it is made, and then awaited.\<close>

definition await :: "sys \<Rightarrow> event \<Rightarrow> unit io" where
  "await sys ev = andThen (emit ev) (\<lambda>_. suspend sys)"

text \<open>
  The file system answers by path string. The empty path never exists; a directory
  cannot be read or written as a file; \<^verbatim>\<open>mkdirp\<close> fails on a file in the way.
\<close>

definition on_disk :: "(string \<Rightarrow> node option) \<Rightarrow> string \<Rightarrow> bool" where
  "on_disk fs p = (p \<noteq> [] \<and> fs p \<noteq> None)"

definition fs_exists :: "sys \<Rightarrow> string \<Rightarrow> bool io" where
  "fs_exists sys p = andThen (await sys (Exists p)) (\<lambda>_ s. (Inr (on_disk (files s) p), s))"

definition fs_readFile :: "sys \<Rightarrow> string \<Rightarrow> string io" where
  "fs_readFile sys p =
     andThen (await sys (ReadFile p))
       (\<lambda>_ s. case files s p of Some (File c) \<Rightarrow> (Inr c, s) | _ \<Rightarrow> (Inl IOError, s))"

definition fs_writeFile :: "sys \<Rightarrow> string \<Rightarrow> string \<Rightarrow> unit io" where
  "fs_writeFile sys p c =
     andThen (await sys (WriteFile p c))
       (\<lambda>_ s. case files s p of
                 Some Dir \<Rightarrow> (Inl IOError, s)
               | _ \<Rightarrow> (Inr (), s\<lparr>files := (files s)(p \<mapsto> File c)\<rparr>))"

definition mkdir :: "sys \<Rightarrow> string \<Rightarrow> unit io" where
  "mkdir sys p =
     andThen (await sys (Mkdir p))
       (\<lambda>_ s. case files s p of
                 Some (File c) \<Rightarrow> (Inl IOError, s)
               | _ \<Rightarrow> (Inr (), s\<lparr>files := (files s)(p \<mapsto> Dir)\<rparr>))"

definition readJSON :: "sys \<Rightarrow> string \<Rightarrow> json io" where
  "readJSON sys p =
     andThen (fs_readFile sys p)
       (\<lambda>content. case json_parse sys content of None \<Rightarrow> throw SyntaxError | Some j \<Rightarrow> ret j)"

subsection \<open>The repository index (\<^verbatim>\<open>lib/cache.js\<close>)\<close>

text \<open>
  Modelled from the spec: the class \<^verbatim>\<open>Cache\<close> of \<^verbatim>\<open>lib/cache.js\<close>, which the
  command requires and whose source is not at hand. The index is a mapping from
  canonical path to repository metadata, loaded from its file on the first access and
  kept in memory from then on; a file that does not exist yet is the empty index.
\<close>

definition cache_load :: "sys \<Rightarrow> obj io" where
  "cache_load sys s =
     (case cache s of
        Some idx \<Rightarrow> (Inr idx, s)
      | None \<Rightarrow>
          andThen (fs_exists sys (cachePath sys))
            (\<lambda>found. andThen (if found then readJSON sys (cachePath sys) else ret (JObj Map.empty))
               (\<lambda>j s'. (Inr (own_props j), s'\<lparr>cache := Some (own_props j)\<rparr>))) s)"

text \<open>
  Modelled from the spec: \<^verbatim>\<open>Cache.get\<close>, missing with \<^verbatim>\<open>lib/cache.js\<close>. Without a
  key it returns the whole loaded index, with a key whether that key is present.
\<close>

definition cache_get :: "sys \<Rightarrow> string option \<Rightarrow> json io" where
  "cache_get sys key =
     andThen (emit (CacheGet key))
       (\<lambda>_. andThen (cache_load sys)
          (\<lambda>idx. ret (case key of None \<Rightarrow> JObj idx | Some k \<Rightarrow> JBool (idx k \<noteq> None))))"

text \<open>
  Modelled from the spec: \<^verbatim>\<open>Cache.set\<close>, missing with \<^verbatim>\<open>lib/cache.js\<close>. It stages
  the entry in memory and does not persist it.
\<close>

definition cache_set :: "sys \<Rightarrow> string \<Rightarrow> json \<Rightarrow> unit io" where
  "cache_set sys key v =
     andThen (emit (CacheSet key v))
       (\<lambda>_. andThen (cache_load sys)
          (\<lambda>idx s. (Inr (), s\<lparr>cache := Some (idx(key \<mapsto> v))\<rparr>)))"

text \<open>
  Modelled from the spec: \<^verbatim>\<open>Cache.dump\<close>, missing with \<^verbatim>\<open>lib/cache.js\<close>. It
  writes the index in memory over the index file.
\<close>

definition cache_dump :: "sys \<Rightarrow> unit io" where
  "cache_dump sys =
     andThen (emit CacheDump)
       (\<lambda>_. andThen (cache_load sys)
          (\<lambda>idx. fs_writeFile sys (cachePath sys) (json_stringify sys (JObj idx))))"

subsection \<open>The command\<close>

text \<open>
  How the promise of \<^verbatim>\<open>runscript\<close> ends for \<^verbatim>\<open>runScript\<close>: the error is thrown
  again, and reading \<^verbatim>\<open>err.stdio.stderr\<close> of an error without \<^verbatim>\<open>stdio\<close> throws
  instead.
\<close>

fun outcome :: "status \<Rightarrow> error + unit" where
  "outcome Exited = Inr ()"
| "outcome (Rejected None) = Inl TypeError"
| "outcome (Rejected (Some err)) = Inl (ProcessError err)"

text \<open>
  \<^verbatim>\<open>runScript\<close>: the child is started and writes its output into a stream that is
  piped to the child logger; the command waits for the promise of \<^verbatim>\<open>runscript\<close>
  only, not for the stream, so the output is in flight when the child is done. When the
  promise is rejected, the captured standard error is logged if there is one.
\<close>

definition runScript :: "sys \<Rightarrow> jsval \<Rightarrow> run_opt \<Rightarrow> unit io" where
  "runScript sys cmd opt =
     andThen (emit (Spawn cmd opt)) (\<lambda>_.
     andThen (\<lambda>s. let r = runscript sys cmd opt (files s)
                  in (Inr r, s\<lparr>files := disk r, in_flight := in_flight s @ stdout r\<rparr>)) (\<lambda>r.
     andThen (suspend sys) (\<lambda>_.
       case status r of
         Rejected (Some (Some err)) \<Rightarrow> andThen (emit (Info err)) (\<lambda>_. lift (outcome (status r)))
       | _ \<Rightarrow> lift (outcome (status r)))))"

text \<open>\<^verbatim>\<open>this.config\<close>, which is undefined before \<^verbatim>\<open>loadConfig\<close> has run.\<close>

definition the_config :: "object io" where
  "the_config s = (case config s of None \<Rightarrow> (Inl TypeError, s) | Some cfg \<Rightarrow> (Inr cfg, s))"

text \<open>
  \<^verbatim>\<open>JSON.stringify(v)\<close> for what \<^verbatim>\<open>this.config[name]\<close> can be: data, a function
  (which has no serialization) or \<^verbatim>\<open>Object.prototype\<close> (which has no enumerable
  property and prints as an empty object).
\<close>

definition serialize :: "sys \<Rightarrow> jsval \<Rightarrow> envval" where
  "serialize sys v =
     (case v of
        Data j \<Rightarrow> Text (json_stringify sys j)
      | Native name \<Rightarrow>
          if name = ''__proto__'' then Text (json_stringify sys (JObj Map.empty)) else Undefined)"

text \<open>The environment that \<^verbatim>\<open>runHook\<close> lays over \<^verbatim>\<open>process.env\<close>.\<close>

definition hook_env :: "sys \<Rightarrow> object \<Rightarrow> string \<Rightarrow> string \<Rightarrow> envval option" where
  "hook_env sys cfg name =
     (let env = Map.empty(
            ''PATH'' \<mapsto> Text (configDir sys @ ''/hooks:'' @ template (process_env sys ''PATH'')),
            ''PROJJ_HOOK_NAME'' \<mapsto> Text name)
      in if truthy (lookup (builtins sys) cfg name)
         then (case lookup (builtins sys) cfg name of
                 None \<Rightarrow> env
               | Some v \<Rightarrow> env(''PROJJ_HOOK_CONFIG'' \<mapsto> serialize sys v))
         else env)"

definition runHook :: "sys \<Rightarrow> string \<Rightarrow> string \<Rightarrow> unit io" where
  "runHook sys name cacheKey =
     andThen the_config (\<lambda>cfg.
     andThen (lift (member (builtins sys) (lookup (builtins sys) cfg ''hooks'') name)) (\<lambda>hook.
       case hook of
         None \<Rightarrow> ret ()
       | Some cmd \<Rightarrow>
           if \<not> truthy (Some cmd) then ret ()
           else
             andThen (cache_get sys (Some cacheKey)) (\<lambda>known.
             andThen (if truthy (Some (Data known))
                      then lift (case lookup (builtins sys) cfg ''base'' of
                                   Some (Data (JStr base)) \<Rightarrow> Inr (path_join [base, cacheKey])
                                 | _ \<Rightarrow> Inl TypeError)
                      else ret cacheKey) (\<lambda>cwd.
             andThen (if cwd \<noteq> [] then fs_exists sys cwd else ret False) (\<lambda>found.
             andThen (emit (Info (''Run hook '' @ name @ '' for '' @ cacheKey))) (\<lambda>_.
               runScript sys cmd
                 \<lparr>opt_env = env_object sys ++ hook_env sys cfg name,
                  opt_cwd = (if found then Some cwd else None)\<rparr>))))))"

text \<open>The environment of the clone: \<^verbatim>\<open>process.env\<close> laid over \<^verbatim>\<open>GIT_SSH\<close>.\<close>

definition clone_env :: "sys \<Rightarrow> string \<Rightarrow> envval option" where
  "clone_env sys =
     Map.empty(''GIT_SSH'' \<mapsto> Text (path_join [module_dir sys, ''ssh.js''])) ++ env_object sys"

text \<open>
  The clone step of \<^verbatim>\<open>addRepo\<close>: the target path, the log line, and \<^verbatim>\<open>git clone\<close>.
\<close>

definition clone :: "sys \<Rightarrow> string \<Rightarrow> string \<Rightarrow> unit io" where
  "clone sys repo cacheKey =
     andThen the_config (\<lambda>cfg.
     andThen (lift (case lookup (builtins sys) cfg ''base'' of
                      Some (Data (JStr base)) \<Rightarrow> Inr (path_join [base, cacheKey])
                    | _ \<Rightarrow> Inl TypeError)) (\<lambda>targetPath.
     andThen (emit (Info (''Cloning into '' @ targetPath))) (\<lambda>_.
       runScript sys (Data (JStr (''git clone '' @ repo @ '' '' @ targetPath @ '' > /dev/null'')))
         \<lparr>opt_env = clone_env sys, opt_cwd = None\<rparr>)))"

definition addRepo :: "sys \<Rightarrow> string \<Rightarrow> string \<Rightarrow> unit io" where
  "addRepo sys repo cacheKey =
     andThen (runHook sys ''preadd'' cacheKey) (\<lambda>_.
     andThen (clone sys repo cacheKey) (\<lambda>_.
     andThen (cache_set sys cacheKey (JObj (Map.empty(''repo'' \<mapsto> JStr repo)))) (\<lambda>_.
     andThen (cache_dump sys) (\<lambda>_.
       runHook sys ''postadd'' cacheKey))))"

definition loadConfig :: "sys \<Rightarrow> unit io" where
  "loadConfig sys =
     (let ask =
            andThen (await sys (Prompt ''Set base directory:'')) (\<lambda>_.
            andThen (lift (resolveConfig sys
                       (JObj (Map.empty(''base'' \<mapsto>
                          JStr (prompt sys (home sys @ ''/projj'')))))
                       (defaults sys))) (\<lambda>cfg.
            andThen (\<lambda>s. (Inr (), s\<lparr>config := Some cfg\<rparr>)) (\<lambda>_.
              fs_writeFile sys (configPath sys) (json_stringify sys (JObj (own cfg))))))
      in
     andThen (mkdir sys (configDir sys)) (\<lambda>_.
     andThen (fs_exists sys (configPath sys)) (\<lambda>configExists.
       if configExists then
         andThen (readJSON sys (configPath sys)) (\<lambda>loaded.
         andThen (lift (resolveConfig sys loaded (defaults sys))) (\<lambda>cfg.
           if truthy (lookup (builtins sys) cfg ''base'')
           then (\<lambda>s. (Inr (), s\<lparr>config := Some cfg\<rparr>))
           else ask))
       else ask)))"

definition init :: "sys \<Rightarrow> unit io" where
  "init sys = andThen (loadConfig sys) (\<lambda>_. andThen (cache_get sys None) (\<lambda>_. ret ()))"

subsection \<open>Notions used to state the properties\<close>

text \<open>The environment of a POSIX process: the home and the working directory are absolute.\<close>

definition posix_env :: "sys \<Rightarrow> bool" where
  "posix_env sys = (is_absolute (home sys) \<and> is_absolute (pwd sys))"

text \<open>The index that the index file holds, if it can be read.\<close>

definition persisted_index :: "sys \<Rightarrow> state \<Rightarrow> obj option" where
  "persisted_index sys s =
     (if on_disk (files s) (cachePath sys) then
        (case files s (cachePath sys) of
           Some (File c) \<Rightarrow> map_option own_props (json_parse sys c)
         | _ \<Rightarrow> None)
      else Some Map.empty)"

text \<open>The index as \<^verbatim>\<open>this.cache.get\<close> finds it: the one in memory, else the one in the file.\<close>

definition index_of :: "sys \<Rightarrow> state \<Rightarrow> obj option" where
  "index_of sys s = (case cache s of Some idx \<Rightarrow> Some idx | None \<Rightarrow> persisted_index sys s)"

text \<open>
  The steps of the add workflow as they show in the log: a child process started with a
  command, an entry staged in the index, the index flushed.
\<close>

datatype step = Run jsval | Set string json | Dump

fun step_of :: "event \<Rightarrow> step option" where
  "step_of (Spawn cmd opt) = Some (Run cmd)"
| "step_of (CacheSet k v) = Some (Set k v)"
| "step_of CacheDump = Some Dump"
| "step_of (ChildOut text) = None"
| "step_of (Info line) = None"
| "step_of (Mkdir p) = None"
| "step_of (Exists p) = None"
| "step_of (ReadFile p) = None"
| "step_of (WriteFile p c) = None"
| "step_of (Prompt q) = None"
| "step_of (CacheGet k) = None"

definition steps :: "event list \<Rightarrow> step list" where
  "steps evs = List.map_filter step_of evs"

text \<open>
  Everything that children have written into their stream so far, in order: what has
  reached the child logger, then what is in flight.
\<close>

fun delivered :: "event list \<Rightarrow> string list" where
  "delivered [] = []"
| "delivered (ChildOut text # evs) = text # delivered evs"
| "delivered (ev # evs) = delivered evs"

definition piped :: "state \<Rightarrow> string list" where
  "piped s = delivered (trace s) @ in_flight s"

text \<open>
  A stretch of a run in which only the log and the streams move: the configuration,
  the file system and what has been piped stay, and the log grows by events that are
  no steps.
\<close>

definition quiet :: "state \<Rightarrow> state \<Rightarrow> bool" where
  "quiet s s' =
     (config s' = config s \<and> files s' = files s \<and> piped s' = piped s \<and>
      (\<exists>evs. trace s' = trace s @ evs \<and> steps evs = []))"

text \<open>The command that \<^verbatim>\<open>runHook\<close> finds for a hook name, if it finds one.\<close>

definition configured :: "sys \<Rightarrow> object \<Rightarrow> string \<Rightarrow> jsval option" where
  "configured sys cfg name =
     (case member (builtins sys) (lookup (builtins sys) cfg ''hooks'') name of
        Inr (Some cmd) \<Rightarrow> if truthy (Some cmd) then Some cmd else None
      | _ \<Rightarrow> None)"

definition hook_steps :: "sys \<Rightarrow> object \<Rightarrow> string \<Rightarrow> step list" where
  "hook_steps sys cfg name =
     (case configured sys cfg name of None \<Rightarrow> [] | Some cmd \<Rightarrow> [Run cmd])"

text \<open>The command line of the clone.\<close>

definition clone_command :: "string \<Rightarrow> string \<Rightarrow> string \<Rightarrow> jsval" where
  "clone_command repo base key =
     Data (JStr (''git clone '' @ repo @ '' '' @ path_join [base, key] @ '' > /dev/null''))"



subsection \<open>A sample installation\<close>

text \<open>
  A home directory \<^verbatim>\<open>/home/u\<close>, a working directory \<^verbatim>\<open>/work\<close>, a \<^verbatim>\<open>git\<close> that
  cannot clone the repository \<^verbatim>\<open>bad\<close>, an \<^verbatim>\<open>echo pre\<close> that prints, and no child
  for a command that is not a string. Streams deliver at once.
\<close>

definition sample_runscript :: "jsval \<Rightarrow> run_opt \<Rightarrow> (string \<Rightarrow> node option) \<Rightarrow> proc_result" where
  "sample_runscript cmd opt fs =
     (case cmd of
        Data (JStr line) \<Rightarrow>
          if line = ''git clone bad /srv/bad > /dev/null''
          then \<lparr>status = Rejected (Some (Some ''fatal: repository not found'')),
                stdout = [], disk = fs\<rparr>
          else \<lparr>status = Exited,
                stdout = (if line = ''echo pre'' then [''pre''] else []), disk = fs\<rparr>
      | _ \<Rightarrow> \<lparr>status = Rejected None, stdout = [], disk = fs\<rparr>)"

definition sample_sys :: sys where
  "sample_sys =
     \<lparr>home = ''/home/u'',
      environ = Map.empty(''PATH'' \<mapsto> ''/usr/bin''),
      pwd = ''/work'',
      module_dir = ''/opt/projj/lib'',
      runscript = sample_runscript,
      json_parse = (\<lambda>text. if text = ''{}'' then Some (JObj Map.empty) else None),
      json_stringify = (\<lambda>j. case j of JStr t \<Rightarrow> CHR 0x22 # t @ [CHR 0x22] | _ \<Rightarrow> ''{}''),
      prompt = (\<lambda>default. default),
      giturl_parse = (\<lambda>url. url),
      builtins = (\<lambda>kind name. name = ''constructor'' \<or> name = ''toString'' \<or> name = ''valueOf''),
      scheduler = (\<lambda>log chunks. length chunks)\<rparr>"



text \<open>The same installation for a user whose home directory has dollar signs in its name.\<close>

definition dollar_sys :: sys where
  "dollar_sys = sample_sys\<lparr>home := ''/home/a$$b''\<rparr>"

definition sample_config :: object where
  "sample_config =
     \<lparr>own = Map.empty(
        ''base'' \<mapsto> JStr ''/srv'',
        ''hooks'' \<mapsto> JObj (Map.empty(''preadd'' \<mapsto> JStr ''echo pre'')),
        ''alias'' \<mapsto> JObj Map.empty,
        ''preadd'' \<mapsto> JStr ''quiet''),
      proto = ObjectPrototype\<rparr>"

definition sample_index :: obj where
  "sample_index =
     Map.empty(''example.com/org/repo'' \<mapsto>
       JObj (Map.empty(''repo'' \<mapsto> JStr ''https://example.com/org/repo'')))"

definition sample_state :: state where
  "sample_state =
     \<lparr>config = Some sample_config,
      cache = Some sample_index,
      files = Map.empty(
        ''/home/u/.projj'' \<mapsto> Dir,
        ''/srv'' \<mapsto> Dir,
        ''/srv/example.com/org/repo'' \<mapsto> Dir),
      trace = [],
      in_flight = []\<rparr>"



text \<open>A first run after the user has saved an empty configuration file.\<close>

definition fresh_state :: state where
  "fresh_state =
     \<lparr>config = None,
      cache = None,
      files = Map.empty(
        ''/home/u/.projj'' \<mapsto> Dir,
        ''/home/u/.projj/config.json'' \<mapsto> File ''{}''),
      trace = [],
      in_flight = []\<rparr>"

section \<open>Properties\<close>

subsection \<open>Paths, strings and property reads\<close>

lemma indexed_0: "indexed xs ''0'' = (case xs of [] \<Rightarrow> None | x # ys \<Rightarrow> Some x)"
  by (cases xs) (simp_all add: indexed_def upt_rec string_of_nat.simps)

declare indexed_0 [simp]

lemma is_absolute_Cons [simp]: "is_absolute (c # cs) = (c = CHR ''/'')"
  by (simp add: is_absolute_def)

lemma is_absolute_Nil [simp]: "\<not> is_absolute []"
  by (simp add: is_absolute_def)

lemma is_absolute_append: "is_absolute p \<Longrightarrow> is_absolute (p @ q)"
  by (cases p) simp_all

lemma is_absolute_normalize: "is_absolute p \<Longrightarrow> is_absolute (normalize p)"
  by (cases p) (simp_all add: normalize_def Let_def)

lemma is_absolute_join_slash: "is_absolute a \<Longrightarrow> is_absolute (join_slash (a # segs))"
  by (cases segs) (simp_all add: is_absolute_append)

lemma is_absolute_path_join: "is_absolute a \<Longrightarrow> is_absolute (path_join (a # args))"
proof -
  assume a: "is_absolute a"
  then have "a \<noteq> []" by auto
  then show ?thesis
    using a by (simp add: path_join_def is_absolute_normalize is_absolute_join_slash)
qed

lemma is_absolute_dirname: "is_absolute p \<Longrightarrow> is_absolute (dirname p)"
  by (cases p) (auto simp: dirname_def split: list.splits)

lemma is_absolute_config_dir: "is_absolute (home sys) \<Longrightarrow> is_absolute (dirname (configPath sys))"
  by (simp add: configPath_def configDir_def is_absolute_path_join is_absolute_dirname)

lemma get_substitution_plain:
  "CHR ''$'' \<notin> set rep \<Longrightarrow> get_substitution matched pre post rep = rep"
  by (induction matched pre post rep rule: get_substitution.induct) auto

lemma get_substitution_absolute:
  "is_absolute rep \<Longrightarrow> is_absolute (get_substitution matched pre post rep)"
  by (induction matched pre post rep rule: get_substitution.induct) auto

lemma js_replace_tilde:
  "js_replace (CHR ''~'' # rest) ''~'' rep = get_substitution ''~'' [] rest rep @ rest"
  by (simp add: js_replace_def replace_from.simps)

lemma strip_scheme_https: "strip_scheme (''https://'' @ r) = r"
  by (simp add: strip_scheme.simps)

lemma strip_scheme_http: "strip_scheme (''http://'' @ r) = r"
  by (simp add: strip_scheme.simps)

lemma object_prototype_simple [simp]:
  "object_prototype ''0'' = None"
  "object_prototype ''base'' = None"
  "object_prototype ''hooks'' = None"
  "object_prototype ''preadd'' = None"
  "object_prototype ''postadd'' = None"
  "object_prototype ''constructor'' = Some (Native ''constructor'')"
  by (simp_all add: object_prototype_def object_prototype_names_def)

lemma inherited_not_data [simp]: "inherited b kind k \<noteq> Some (Data v)"
  by (auto simp: inherited_def object_prototype_def)

lemma object_prototype_not_data [simp]: "object_prototype k \<noteq> Some (Data v)"
  by (auto simp: object_prototype_def)

lemma member_0_string:
  "member b (Some (Data (JStr s))) ''0'' =
     Inr (case s of [] \<Rightarrow> inherited b StringKind ''0'' | c # cs \<Rightarrow> Some (Data (JStr [c])))"
  by (cases s) simp_all

lemma member_0_absolute:
  "is_absolute p \<Longrightarrow> member b (Some (Data (JStr p))) ''0'' = Inr (Some (Data (JStr ''/'')))"
  by (cases p) simp_all

text \<open>Own properties after a merge.\<close>

lemma own_set_proto: "k \<noteq> ''__proto__'' \<Longrightarrow> own (set_proto t v) k = own t k"
  by (simp add: set_proto_def split: json.splits)

lemma own_assign_source:
  "k \<noteq> ''__proto__'' \<Longrightarrow> own (assign_source t src) k = (own t ++ own_props src) k"
  by (simp add: assign_source_def Let_def own_set_proto map_add_def split: option.splits)

lemma own_object_assign:
  "k \<noteq> ''__proto__'' \<Longrightarrow> own (object_assign a b) k = (own_props a ++ own_props b) k"
  by (simp add: object_assign_def own_assign_source map_add_def split: option.splits)

lemma lookup_own: "own t k = Some v \<Longrightarrow> lookup b t k = Some (Data v)"
  by (simp add: lookup_def)

lemma own_set_base [simp]:
  "own (set_base cfg p) = (own cfg)(''base'' \<mapsto> JStr p)" "proto (set_base cfg p) = proto cfg"
  by (simp_all add: set_base_def)

lemma resolveConfig_string:
  assumes "lookup (builtins sys) (object_assign dflts partial) ''base'' = Some (Data (JStr s))"
  shows "resolveConfig sys partial dflts =
           Inr (case s of
                  [] \<Rightarrow> set_base (object_assign dflts partial) (path_join [pwd sys, s])
                | c # cs \<Rightarrow>
                    if c = CHR ''.''
                      then set_base (object_assign dflts partial)
                             (path_join [dirname (configPath sys), s])
                    else if c = CHR ''~''
                      then set_base (object_assign dflts partial) (js_replace s ''~'' (home sys))
                    else if c = CHR ''/'' then object_assign dflts partial
                    else set_base (object_assign dflts partial) (path_join [pwd sys, s]))"
  using assms
  by (cases s) (simp_all add: resolveConfig_def Let_def as_string_def inherited_def
      object_prototype_def object_prototype_names_def)

subsection \<open>Configuration resolution\<close>

lemma sample_sys_fields:
  "home sample_sys = ''/home/u''"
  "environ sample_sys = Map.empty(''PATH'' \<mapsto> ''/usr/bin'')"
  "pwd sample_sys = ''/work''"
  "module_dir sample_sys = ''/opt/projj/lib''"
  "runscript sample_sys = sample_runscript"
  "json_parse sample_sys = (\<lambda>text. if text = ''{}'' then Some (JObj Map.empty) else None)"
  "json_stringify sample_sys = (\<lambda>j. case j of JStr t \<Rightarrow> CHR 0x22 # t @ [CHR 0x22] | _ \<Rightarrow> ''{}'')"
  "prompt sample_sys = (\<lambda>default. default)"
  "giturl_parse sample_sys = (\<lambda>url. url)"
  "builtins sample_sys =
     (\<lambda>kind name. name = ''constructor'' \<or> name = ''toString'' \<or> name = ''valueOf'')"
  "scheduler sample_sys = (\<lambda>log chunks. length chunks)"
  by (simp_all add: sample_sys_def)

lemmas path_defs = path_join_def normalize_def dirname_def Let_def

lemma sample_paths:
  "configDir sample_sys = ''/home/u/.projj''"
  "configPath sample_sys = ''/home/u/.projj/config.json''"
  "cachePath sample_sys = ''/home/u/.projj/cache.json''"
  by (simp_all add: path_defs configDir_def configPath_def cachePath_def sample_sys_fields)

lemma posix_sample: "posix_env sample_sys"
  by (simp add: posix_env_def sample_sys_fields)

lemma resolved_base_absolute:
  assumes "posix_env sys"
  shows "is_absolute (path_join [pwd sys, s])"
    and "is_absolute (path_join [dirname (configPath sys), s])"
    and "is_absolute (js_replace (CHR ''~'' # rest) ''~'' (home sys))"
  using assms
  by (auto simp: posix_env_def is_absolute_path_join is_absolute_config_dir js_replace_tilde
      is_absolute_append get_substitution_absolute)

lemma resolveConfig_first_slash:
  assumes "resolveConfig sys partial dflts = Inr r" and "posix_env sys"
  shows "\<exists>base. lookup (builtins sys) r ''base'' = Some base \<and>
           member (builtins sys) (Some base) ''0'' = Inr (Some (Data (JStr ''/'')))"
proof (cases "\<exists>s. lookup (builtins sys) (object_assign dflts partial) ''base'' = Some (Data (JStr s))")
  case True
  then obtain s where s: "lookup (builtins sys) (object_assign dflts partial) ''base'' = Some (Data (JStr s))"
    by blast
  show ?thesis
  proof (cases s)
    case Nil
    with assms(1) resolved_base_absolute(1) [OF assms(2), of s]
    show ?thesis
      unfolding resolveConfig_string [OF s]
      by (auto simp: lookup_own member_0_absolute simp del: member.simps)
  next
    case (Cons c cs)
    with assms(1) resolved_base_absolute(1,2) [OF assms(2), of s]
      resolved_base_absolute(3) [OF assms(2), of cs] s
    show ?thesis
      unfolding resolveConfig_string [OF s]
      by (auto simp: lookup_own member_0_absolute simp del: member.simps split: if_splits)
  qed
next
  case False
  then show ?thesis
    using assms(1)
    by (auto simp: resolveConfig_def Let_def as_string_def
        split: sum.splits option.splits if_splits json.splits jsval.splits)
qed

lemma resolved_base_truthy:
  assumes "resolveConfig sys loaded dflts = Inr cfg" and "posix_env sys"
  shows "truthy (lookup (builtins sys) cfg ''base'')"
proof -
  from resolveConfig_first_slash [OF assms]
  obtain base where b: "lookup (builtins sys) cfg ''base'' = Some base"
    "member (builtins sys) (Some base) ''0'' = Inr (Some (Data (JStr ''/'')))"
    by blast
  show ?thesis
  proof (cases base)
    case (Data j)
    with b show ?thesis by (cases j) auto
  next
    case (Native n)
    with b show ?thesis by simp
  qed
qed

lemma defaults_base:
  "own (object_assign (defaults sys) partial) ''base'' =
     (case own_props partial ''base'' of None \<Rightarrow> Some (JStr (home sys @ ''/projj'')) | Some v \<Rightarrow> Some v)"
  by (simp add: own_object_assign defaults_def map_add_def split: option.splits)

text \<open>
  C3. In a POSIX environment, for a partial configuration whose \<^verbatim>\<open>base\<close> is a
  string or is missing, \<^verbatim>\<open>resolveConfig\<close> against the fixed defaults returns a
  configuration whose \<^verbatim>\<open>base\<close> is an absolute path, whatever the first character
  of the base supplied; a base that starts with none of \<^verbatim>\<open>.\<close>, \<^verbatim>\<open>~\<close> and \<^verbatim>\<open>/\<close>
  is joined to the current working directory.
\<close>

theorem resolveConfig_base_absolute:
  assumes "posix_env sys"
    and "own_props partial ''base'' = None \<or> (\<exists>s. own_props partial ''base'' = Some (JStr s))"
  shows "\<exists>r b. resolveConfig sys partial (defaults sys) = Inr r \<and>
           own r ''base'' = Some (JStr b) \<and>
           lookup (builtins sys) r ''base'' = Some (Data (JStr b)) \<and> is_absolute b \<and>
           (\<forall>s. own_props partial ''base'' = Some (JStr s) \<longrightarrow>
                \<not> prefix ''.'' s \<longrightarrow> \<not> prefix ''~'' s \<longrightarrow> \<not> prefix ''/'' s \<longrightarrow>
                b = path_join [pwd sys, s])"
proof -
  from assms(2) obtain s where o: "own (object_assign (defaults sys) partial) ''base'' = Some (JStr s)"
    and same: "\<And>t. own_props partial ''base'' = Some (JStr t) \<Longrightarrow> t = s"
    by (auto simp: defaults_base)
  from o have s: "lookup (builtins sys) (object_assign (defaults sys) partial) ''base'' = Some (Data (JStr s))"
    by (rule lookup_own)
  show ?thesis
  proof (cases s)
    case Nil
    with resolveConfig_string [OF s] resolved_base_absolute(1) [OF assms(1), of s] same
    show ?thesis by (auto simp: lookup_own)
  next
    case (Cons c cs)
    with resolveConfig_string [OF s] resolved_base_absolute(1,2) [OF assms(1), of s]
      resolved_base_absolute(3) [OF assms(1), of cs] same o
    show ?thesis by (auto simp: lookup_own split: if_splits)
  qed
qed

text \<open>
  C3 at the sample installation: the bare base \<^verbatim>\<open>code\<close> under \<^verbatim>\<open>/work\<close>.
\<close>

theorem resolveConfig_base_absolute_witness:
  "posix_env sample_sys \<and>
   (\<exists>r. resolveConfig sample_sys (JObj (Map.empty(''base'' \<mapsto> JStr ''code''))) (defaults sample_sys) = Inr r
      \<and> own r ''base'' = Some (JStr ''/work/code'')
      \<and> lookup (builtins sample_sys) r ''base'' = Some (Data (JStr ''/work/code''))
      \<and> is_absolute ''/work/code'')"
proof -
  have p: "path_join [pwd sample_sys, ''code''] = ''/work/code''"
    by (simp add: path_defs sample_sys_fields)
  from resolveConfig_base_absolute [OF posix_sample,
      where partial = "JObj (Map.empty(''base'' \<mapsto> JStr ''code''))"]
  show ?thesis by (auto simp: posix_sample p)
qed

lemma dollar_sys_fields:
  "home dollar_sys = ''/home/a$$b''" "pwd dollar_sys = ''/work''"
  "builtins dollar_sys = builtins sample_sys"
  by (simp_all add: dollar_sys_def sample_sys_def)

lemma resolveConfig_tilde:
  assumes "own_props partial ''base'' = Some (JStr (CHR ''~'' # rest))"
  shows "\<exists>r. resolveConfig sys partial dflts = Inr r \<and>
           own r ''base'' = Some (JStr (get_substitution ''~'' [] rest (home sys) @ rest))"
proof -
  from assms have "own (object_assign dflts partial) ''base'' = Some (JStr (CHR ''~'' # rest))"
    by (simp add: own_object_assign)
  then have "lookup (builtins sys) (object_assign dflts partial) ''base'' = Some (Data (JStr (CHR ''~'' # rest)))"
    by (rule lookup_own)
  from resolveConfig_string [OF this] show ?thesis
    by (simp add: js_replace_tilde)
qed

text \<open>
  With a home directory that has no dollar sign in its name, the \<^verbatim>\<open>~\<close> at the head
  of the base is replaced by the home directory, and nothing is put between it and the
  rest: \<^verbatim>\<open>~/x\<close> becomes the home directory followed by \<^verbatim>\<open>/x\<close>, and \<^verbatim>\<open>~x\<close> the
  home directory followed by \<^verbatim>\<open>x\<close>.
\<close>

lemma resolveConfig_tilde_plain:
  assumes "own_props partial ''base'' = Some (JStr (CHR ''~'' # rest))"
    and "CHR ''$'' \<notin> set (home sys)"
  shows "\<exists>r. resolveConfig sys partial dflts = Inr r \<and>
           own r ''base'' = Some (JStr (home sys @ rest))"
  using resolveConfig_tilde [OF assms(1), of sys dflts] assms(2)
  by (simp add: get_substitution_plain)

text \<open>
  C10. The home directory is not put in place of the \<^verbatim>\<open>~\<close> as plain text:
  \<^verbatim>\<open>String.prototype.replace\<close> reads the dollar signs of its replacement as
  patterns. For a user whose home directory is \<^verbatim>\<open>/home/a$$b\<close>, the base \<^verbatim>\<open>~/x\<close>
  resolves to \<^verbatim>\<open>/home/a$b/x\<close>, which is not the home directory followed by
  \<^verbatim>\<open>/x\<close>.
\<close>

theorem resolveConfig_tilde_dollar:
  "home dollar_sys = ''/home/a$$b'' \<and>
   resolveConfig dollar_sys (JObj (Map.empty(''base'' \<mapsto> JStr ''~/x''))) (defaults dollar_sys) =
     Inr (set_base (object_assign (defaults dollar_sys) (JObj (Map.empty(''base'' \<mapsto> JStr ''~/x''))))
            ''/home/a$b/x'')"
proof -
  have "own (object_assign (defaults dollar_sys) (JObj (Map.empty(''base'' \<mapsto> JStr ''~/x'')))) ''base''
          = Some (JStr ''~/x'')"
    by (simp add: own_object_assign)
  then have "lookup (builtins dollar_sys)
               (object_assign (defaults dollar_sys) (JObj (Map.empty(''base'' \<mapsto> JStr ''~/x'')))) ''base''
          = Some (Data (JStr ''~/x''))"
    by (rule lookup_own)
  from resolveConfig_string [OF this] show ?thesis
    by (simp add: js_replace_tilde dollar_sys_fields)
qed

text \<open>Prototypes after a merge.\<close>

lemma empty_reaches [simp]: "reaches_setter \<lparr>own = Map.empty, proto = ObjectPrototype\<rparr>"
  by (simp add: reaches_setter_def)

lemma assign_source_plain:
  assumes "proto (assign_source t src) = ObjectPrototype" and "own t ''__proto__'' = None"
  shows "proto t = ObjectPrototype \<and>
         own (assign_source t src) = own t ++ (own_props src)(''__proto__'' := None)"
  using assms
  by (auto simp: assign_source_def Let_def set_proto_def reaches_setter_def map_add_def
      split: option.splits json.splits if_splits prototype.splits)

lemma object_assign_plain:
  assumes "proto (object_assign a b) = ObjectPrototype"
  shows "proto (assign_source \<lparr>own = Map.empty, proto = ObjectPrototype\<rparr> a) = ObjectPrototype"
    and "own (assign_source \<lparr>own = Map.empty, proto = ObjectPrototype\<rparr> a) = (own_props a)(''__proto__'' := None)"
    and "own (object_assign a b) = (own_props a)(''__proto__'' := None) ++ (own_props b)(''__proto__'' := None)"
proof -
  let ?t = "assign_source \<lparr>own = Map.empty, proto = ObjectPrototype\<rparr> a"
  have o: "own ?t ''__proto__'' = None"
    by (auto simp: assign_source_def Let_def set_proto_def reaches_setter_def map_add_def
        split: option.splits json.splits)
  from assign_source_plain [OF _ o, of b] assms
  have p: "proto ?t = ObjectPrototype" and ob: "own (object_assign a b) = own ?t ++ (own_props b)(''__proto__'' := None)"
    by (simp_all add: object_assign_def)
  from assign_source_plain [of "\<lparr>own = Map.empty, proto = ObjectPrototype\<rparr>" a] p
  have oa: "own ?t = (own_props a)(''__proto__'' := None)"
    by simp
  show "proto ?t = ObjectPrototype" by (rule p)
  show "own ?t = (own_props a)(''__proto__'' := None)" by (rule oa)
  show "own (object_assign a b) = (own_props a)(''__proto__'' := None) ++ (own_props b)(''__proto__'' := None)"
    using ob oa by simp
qed

lemma resolveConfig_keeps:
  assumes "resolveConfig sys partial dflts = Inr r"
  shows "proto r = proto (object_assign dflts partial) \<and>
         (own r = own (object_assign dflts partial) \<or>
          (\<exists>v. own r = (own (object_assign dflts partial))(''base'' \<mapsto> v)))"
  using assms
  by (auto simp: resolveConfig_def Let_def split: sum.splits option.splits if_splits)

lemma object_assign_again:
  assumes "resolveConfig sys partial dflts = Inr r" and "proto r = ObjectPrototype"
  shows "object_assign dflts (JObj (own r)) = r"
proof -
  let ?cfg = "object_assign dflts partial"
  let ?t = "assign_source \<lparr>own = Map.empty, proto = ObjectPrototype\<rparr> dflts"
  from resolveConfig_keeps [OF assms(1)] assms(2)
  have pc: "proto ?cfg = ObjectPrototype"
    and oc: "own r = own ?cfg \<or> (\<exists>v. own r = (own ?cfg)(''base'' \<mapsto> v))"
    by simp_all
  note plain = object_assign_plain [OF pc]
  from oc plain(3) have none: "own r ''__proto__'' = None"
    by (auto simp: map_add_def)
  have absorb: "own ?t ++ own r = own r"
  proof (rule ext)
    fix k
    show "(own ?t ++ own r) k = own r k"
      using oc plain(2,3) by (auto simp: map_add_def split: option.splits if_splits)
  qed
  have "assign_source ?t (JObj (own r)) = ?t\<lparr>own := own ?t ++ own r\<rparr>"
    using none by (simp add: assign_source_def Let_def fun_upd_idem)
  then have "object_assign dflts (JObj (own r)) = ?t\<lparr>own := own r\<rparr>"
    by (simp add: object_assign_def absorb)
  also have "\<dots> = r"
    using plain(1) assms(2) by (cases r, cases ?t) simp
  finally show ?thesis .
qed

text \<open>
  In a POSIX environment, a result of \<^verbatim>\<open>resolveConfig\<close> whose prototype is still
  \<^verbatim>\<open>Object.prototype\<close> is returned unchanged when it is resolved again against the
  same defaults.
\<close>

lemma resolveConfig_idempotent_plain:
  assumes "posix_env sys" and "resolveConfig sys partial dflts = Inr r"
    and "proto r = ObjectPrototype"
  shows "resolveAgain sys r dflts = Inr r"
proof -
  from resolveConfig_first_slash [OF assms(2,1)]
  obtain base where "lookup (builtins sys) r ''base'' = Some base"
    "member (builtins sys) (Some base) ''0'' = Inr (Some (Data (JStr ''/'')))"
    by blast
  then show ?thesis
    by (simp add: resolveAgain_def resolveConfig_def object_assign_again [OF assms(2,3)]
        del: member.simps)
qed

lemma upd_del_empty [simp]: "(Map.empty(k \<mapsto> v))(k := None) = Map.empty"
  by simp

text \<open>
  C8. A configuration file may have a key \<^verbatim>\<open>__proto__\<close>; \<^verbatim>\<open>Object.assign\<close>
  makes its value the prototype of the resolved configuration instead of a property.
  With empty defaults, the base \<^verbatim>\<open>/x\<close> is then inherited, the first resolution
  returns, and resolving its result again throws, since no base is copied. With the
  fixed defaults, the first resolution inherits the entry \<^verbatim>\<open>preadd\<close> and the
  second one has lost it.
\<close>

theorem resolveConfig_not_idempotent:
  "resolveConfig sample_sys
     (JObj (Map.empty(''__proto__'' \<mapsto> JObj (Map.empty(''base'' \<mapsto> JStr ''/x'')))))
     (JObj Map.empty)
   = Inr \<lparr>own = Map.empty, proto = DataPrototype (JObj (Map.empty(''base'' \<mapsto> JStr ''/x'')))\<rparr>
   \<and>
   resolveAgain sample_sys
     \<lparr>own = Map.empty, proto = DataPrototype (JObj (Map.empty(''base'' \<mapsto> JStr ''/x'')))\<rparr>
     (JObj Map.empty)
   = Inl TypeError
   \<and>
   resolveConfig sample_sys
     (JObj (Map.empty(''__proto__'' \<mapsto> JObj (Map.empty(''preadd'' \<mapsto> JStr ''quiet'')))))
     (defaults sample_sys)
   = Inr \<lparr>own = own_props (defaults sample_sys),
          proto = DataPrototype (JObj (Map.empty(''preadd'' \<mapsto> JStr ''quiet'')))\<rparr>
   \<and>
   resolveAgain sample_sys
     \<lparr>own = own_props (defaults sample_sys),
      proto = DataPrototype (JObj (Map.empty(''preadd'' \<mapsto> JStr ''quiet'')))\<rparr>
     (defaults sample_sys)
   = Inr \<lparr>own = own_props (defaults sample_sys), proto = ObjectPrototype\<rparr>"
  by (simp add: resolveConfig_def resolveAgain_def object_assign_def assign_source_def Let_def
      set_proto_def reaches_setter_def lookup_def defaults_def sample_sys_fields as_string_def
      fun_upd_twist)

subsection \<open>URL normalization\<close>

text \<open>
  C9. \<^verbatim>\<open>url2dir\<close> depends on nothing but the URL and what \<^verbatim>\<open>giturl\<close> makes of it;
  it reads and changes no state. Whenever \<^verbatim>\<open>giturl\<close> returns the transport form
  of \<^verbatim>\<open>https://example.com/org/repo\<close> with the scheme \<^verbatim>\<open>https\<close> or \<^verbatim>\<open>http\<close>,
  the result is \<^verbatim>\<open>example.com/org/repo\<close>.
\<close>

theorem url2dir_pure:
  "(giturl_parse sys url = giturl_parse sys' url \<longrightarrow> url2dir sys url = url2dir sys' url) \<and>
   (giturl_parse sys ''https://example.com/org/repo'' = ''https://example.com/org/repo'' \<or>
    giturl_parse sys ''https://example.com/org/repo'' = ''http://example.com/org/repo'' \<longrightarrow>
      url2dir sys ''https://example.com/org/repo'' = ''example.com/org/repo'')"
  using strip_scheme_https [of "''example.com/org/repo''"]
    strip_scheme_http [of "''example.com/org/repo''"]
  by (auto simp: url2dir_def)

text \<open>
  C9 at the sample installation, where \<^verbatim>\<open>giturl\<close> returns the URL as it is.
\<close>

theorem url2dir_pure_witness:
  "giturl_parse sample_sys ''https://example.com/org/repo'' = ''https://example.com/org/repo'' \<and>
   url2dir sample_sys ''https://example.com/org/repo'' = ''example.com/org/repo''"
  using url2dir_pure [where sys = sample_sys and sys' = sample_sys
      and url = "''https://example.com/org/repo''"]
  by (simp add: sample_sys_fields)

subsection \<open>What each operation does to the state\<close>

lemmas io_defs = andThen_def ret_def throw_def emit_def lift_def the_config_def

lemma steps_simps [simp]:
  "steps [] = []"
  "steps (ev # evs) = (case step_of ev of None \<Rightarrow> steps evs | Some st \<Rightarrow> st # steps evs)"
  "steps (evs @ evs') = steps evs @ steps evs'"
  by (simp_all add: steps_def List.map_filter_def split: option.splits)

lemma steps_ChildOut [simp]: "steps (map ChildOut chunks) = []"
  by (induction chunks) simp_all

lemma delivered_append [simp]: "delivered (evs @ evs') = delivered evs @ delivered evs'"
  by (induction evs rule: delivered.induct) simp_all

lemma delivered_ChildOut [simp]: "delivered (map ChildOut chunks) = chunks"
  by (induction chunks) simp_all

lemma persisted_index_files:
  "files s' = files s \<Longrightarrow> persisted_index sys s' = persisted_index sys s"
  by (simp add: persisted_index_def)

lemma andThenE:
  assumes "andThen m f s = (r, s')"
  obtains (fail) e where "m s = (Inl e, s')" "r = Inl e"
        | (go) x s1 where "m s = (Inr x, s1)" "f x s1 = (r, s')"
  using assms by (auto simp: andThen_def split: prod.splits sum.splits)

lemma quiet_refl [simp]: "quiet s s"
  by (simp add: quiet_def)

lemma quiet_trans: "quiet s s1 \<Longrightarrow> quiet s1 s2 \<Longrightarrow> quiet s s2"
  by (auto simp: quiet_def)

lemma quiet_steps:
  "quiet s s1 \<Longrightarrow> trace s2 = trace s1 @ evs \<Longrightarrow> \<exists>pre. trace s2 = trace s @ pre @ evs \<and> steps pre = []"
  by (auto simp: quiet_def)

text \<open>The primitives.\<close>

lemma suspend_quiet:
  "\<exists>s'. suspend sys s = (Inr (), s') \<and> quiet s s' \<and> cache s' = cache s"
  by (simp add: suspend_def Let_def quiet_def piped_def)

lemma emit_effect:
  "emit ev s = (Inr (), s\<lparr>trace := trace s @ [ev]\<rparr>)"
  by (simp add: emit_def)

lemma await_quiet:
  assumes "step_of ev = None" and "delivered [ev] = []"
  shows "\<exists>s'. await sys ev s = (Inr (), s') \<and> quiet s s' \<and> cache s' = cache s"
proof -
  let ?s1 = "s\<lparr>trace := trace s @ [ev]\<rparr>"
  from suspend_quiet [of sys ?s1]
  obtain s' where s': "suspend sys ?s1 = (Inr (), s')" "quiet ?s1 s'" "cache s' = cache ?s1"
    by blast
  have "quiet s ?s1" using assms by (simp add: quiet_def piped_def)
  with s' show ?thesis
    by (auto simp: await_def andThen_def emit_def intro: quiet_trans)
qed

lemma fs_exists_effect:
  "\<exists>s'. fs_exists sys p s = (Inr (on_disk (files s) p), s') \<and> quiet s s' \<and> cache s' = cache s"
proof -
  from await_quiet [of "Exists p" sys s]
  obtain s' where "await sys (Exists p) s = (Inr (), s')" "quiet s s'" "cache s' = cache s"
    by auto
  then show ?thesis
    by (auto simp: fs_exists_def andThen_def quiet_def)
qed

lemma fs_readFile_effect:
  "\<exists>s'. fs_readFile sys p s =
          ((case files s p of Some (File c) \<Rightarrow> Inr c | _ \<Rightarrow> Inl IOError), s') \<and>
        quiet s s' \<and> cache s' = cache s"
proof -
  from await_quiet [of "ReadFile p" sys s]
  obtain s' where "await sys (ReadFile p) s = (Inr (), s')" "quiet s s'" "cache s' = cache s"
    by auto
  then show ?thesis
    by (auto simp: fs_readFile_def andThen_def quiet_def split: option.splits node.splits)
qed

lemma readJSON_effect:
  "\<exists>s'. readJSON sys p s =
          ((case files s p of
              Some (File c) \<Rightarrow>
                (case json_parse sys c of None \<Rightarrow> Inl SyntaxError | Some j \<Rightarrow> Inr j)
            | _ \<Rightarrow> Inl IOError), s') \<and>
        quiet s s' \<and> cache s' = cache s"
proof -
  from fs_readFile_effect [of sys p s]
  obtain s' where "fs_readFile sys p s =
          ((case files s p of Some (File c) \<Rightarrow> Inr c | _ \<Rightarrow> Inl IOError), s')"
    "quiet s s'" "cache s' = cache s"
    by auto
  then show ?thesis
    by (auto simp: readJSON_def andThen_def ret_def throw_def split: option.splits node.splits)
qed

lemma fs_writeFile_effect:
  "\<exists>s0. quiet s s0 \<and> cache s0 = cache s \<and>
        (\<exists>post. trace s0 = trace s @ WriteFile p c # post) \<and>
        fs_writeFile sys p c s =
          (case files s p of
             Some Dir \<Rightarrow> (Inl IOError, s0)
           | _ \<Rightarrow> (Inr (), s0\<lparr>files := (files s)(p \<mapsto> File c)\<rparr>))"
proof -
  let ?s1 = "s\<lparr>trace := trace s @ [WriteFile p c]\<rparr>"
  from suspend_quiet [of sys ?s1]
  obtain s0 where s0: "suspend sys ?s1 = (Inr (), s0)" "quiet ?s1 s0" "cache s0 = cache ?s1"
    by blast
  have q: "quiet s ?s1" by (simp add: quiet_def piped_def)
  from s0(2) have "\<exists>post. trace s0 = trace s @ WriteFile p c # post"
    by (auto simp: quiet_def)
  moreover have "files s0 = files s" using s0(2) by (simp add: quiet_def)
  ultimately show ?thesis
    using s0 quiet_trans [OF q s0(2)]
    by (auto simp: fs_writeFile_def await_def andThen_def emit_def split: option.splits node.splits)
qed

lemma mkdir_effect:
  "\<exists>s0. quiet s s0 \<and> cache s0 = cache s \<and>
        mkdir sys p s =
          (case files s p of
             Some (File c) \<Rightarrow> (Inl IOError, s0)
           | _ \<Rightarrow> (Inr (), s0\<lparr>files := (files s)(p \<mapsto> Dir)\<rparr>))"
proof -
  from await_quiet [of "Mkdir p" sys s]
  obtain s0 where "await sys (Mkdir p) s = (Inr (), s0)" "quiet s s0" "cache s0 = cache s"
    by auto
  then show ?thesis
    by (auto simp: mkdir_def andThen_def quiet_def split: option.splits node.splits)
qed

lemma cache_load_effect:
  "\<exists>s'. quiet s s' \<and>
        cache_load sys s =
          ((case index_of sys s of
              Some idx \<Rightarrow> Inr idx
            | None \<Rightarrow>
                (case files s (cachePath sys) of
                   Some (File c) \<Rightarrow> Inl SyntaxError
                 | _ \<Rightarrow> Inl IOError)), s') \<and>
        (case index_of sys s of
           Some idx \<Rightarrow> cache s' = Some idx
         | None \<Rightarrow> cache s' = None \<and> cache s = None)"
proof (cases "cache s")
  case (Some idx)
  then show ?thesis
    by (auto simp: cache_load_def index_of_def)
next
  case None
  from fs_exists_effect [of sys "cachePath sys" s]
  obtain s1 where s1: "fs_exists sys (cachePath sys) s = (Inr (on_disk (files s) (cachePath sys)), s1)"
    "quiet s s1" "cache s1 = cache s"
    by blast
  show ?thesis
  proof (cases "on_disk (files s) (cachePath sys)")
    case False
    with None s1 show ?thesis
      by (auto simp: cache_load_def index_of_def persisted_index_def andThen_def ret_def quiet_def
          piped_def)
  next
    case True
    from readJSON_effect [of sys "cachePath sys" s1]
    obtain s2 where s2: "readJSON sys (cachePath sys) s1 =
          ((case files s1 (cachePath sys) of
              Some (File c) \<Rightarrow>
                (case json_parse sys c of None \<Rightarrow> Inl SyntaxError | Some j \<Rightarrow> Inr j)
            | _ \<Rightarrow> Inl IOError), s2)"
      "quiet s1 s2" "cache s2 = cache s1"
      by blast
    have f: "files s1 = files s" using s1(2) by (simp add: quiet_def)
    have q: "quiet s s2" using s1(2) s2(2) by (rule quiet_trans)
    then have q': "\<And>c. quiet s (s2\<lparr>cache := c\<rparr>)"
      by (auto simp: quiet_def piped_def)
    from True None s1 s2 f q q' show ?thesis
      by (auto simp: cache_load_def index_of_def persisted_index_def andThen_def ret_def
          split: option.splits node.splits)
  qed
qed

lemma index_of_cong:
  "cache s0 = cache s \<Longrightarrow> files s0 = files s \<Longrightarrow> index_of sys s0 = index_of sys s"
  by (simp add: index_of_def persisted_index_def split: option.splits)

lemma cache_load_after:
  assumes "cache s0 = cache s" "files s0 = files s"
  shows "\<exists>s'. quiet s0 s' \<and>
        cache_load sys s0 =
          ((case index_of sys s of
              Some idx \<Rightarrow> Inr idx
            | None \<Rightarrow>
                (case files s (cachePath sys) of
                   Some (File c) \<Rightarrow> Inl SyntaxError
                 | _ \<Rightarrow> Inl IOError)), s') \<and>
        (case index_of sys s of
           Some idx \<Rightarrow> cache s' = Some idx
         | None \<Rightarrow> cache s' = None \<and> cache s = None)"
  using cache_load_effect [of s0 sys] index_of_cong [OF assms, of sys] assms
  by (cases "index_of sys s") auto

lemma cache_get_effect:
  "\<exists>s'. quiet s s' \<and>
        cache_get sys key s =
          ((case index_of sys s of
              Some idx \<Rightarrow> Inr (case key of None \<Rightarrow> JObj idx | Some k \<Rightarrow> JBool (idx k \<noteq> None))
            | None \<Rightarrow>
                (case files s (cachePath sys) of
                   Some (File c) \<Rightarrow> Inl SyntaxError
                 | _ \<Rightarrow> Inl IOError)), s') \<and>
        (case index_of sys s of
           Some idx \<Rightarrow> cache s' = Some idx
         | None \<Rightarrow> cache s' = None \<and> cache s = None)"
proof -
  let ?s0 = "s\<lparr>trace := trace s @ [CacheGet key]\<rparr>"
  have q0: "quiet s ?s0" by (simp add: quiet_def piped_def)
  have i0: "cache ?s0 = cache s" "files ?s0 = files s"
    by simp_all
  from cache_load_after [OF i0, of sys]
  obtain s' where s': "quiet ?s0 s'"
    "cache_load sys ?s0 =
          ((case index_of sys s of
              Some idx \<Rightarrow> Inr idx
            | None \<Rightarrow>
                (case files s (cachePath sys) of
                   Some (File c) \<Rightarrow> Inl SyntaxError
                 | _ \<Rightarrow> Inl IOError)), s')"
    "(case index_of sys s of
           Some idx \<Rightarrow> cache s' = Some idx
         | None \<Rightarrow> cache s' = None \<and> cache s = None)"
    by blast
  from quiet_trans [OF q0 s'(1)] s'(2,3) show ?thesis
    by (auto simp: cache_get_def andThen_def emit_def ret_def split: option.splits node.splits)
qed



text \<open>
  \<^verbatim>\<open>runScript\<close> ends as the promise of \<^verbatim>\<open>runscript\<close> does, called with the command
  and the options it was given on the file system it found; the file system is then
  what the child has left, and the child's output has been written into the stream.
\<close>

lemma runScript_effect:
  "\<exists>s' post. runScript sys cmd opt s = (outcome (status (runscript sys cmd opt (files s))), s') \<and>
      config s' = config s \<and> cache s' = cache s \<and>
      files s' = disk (runscript sys cmd opt (files s)) \<and>
      piped s' = piped s @ stdout (runscript sys cmd opt (files s)) \<and>
      trace s' = trace s @ Spawn cmd opt # post \<and> steps post = []"
proof -
  define p where "p = runscript sys cmd opt (files s)"
  let ?s1 = "s\<lparr>trace := trace s @ [Spawn cmd opt], files := disk p,
               in_flight := in_flight s @ stdout p\<rparr>"
  from suspend_quiet [of sys ?s1]
  obtain s2 where s2: "suspend sys ?s1 = (Inr (), s2)" "quiet ?s1 s2" "cache s2 = cache ?s1"
    by blast
  from s2(2) obtain post where post: "trace s2 = trace s @ Spawn cmd opt # post" "steps post = []"
    by (auto simp: quiet_def)
  from s2(2) have a: "config s2 = config s" "files s2 = disk p" "piped s2 = piped s @ stdout p"
    by (auto simp: quiet_def piped_def)
  have b: "cache s2 = cache s" using s2(3) by simp
  show ?thesis
  proof (cases "\<exists>err. status p = Rejected (Some (Some err))")
    case False
    then have "runScript sys cmd opt s = (outcome (status p), s2)"
      using s2(1)
      by (auto simp: runScript_def andThen_def emit_def lift_def Let_def p_def
          split: status.splits option.splits)
    with a b post show ?thesis unfolding p_def by blast
  next
    case True
    then obtain err where err: "status p = Rejected (Some (Some err))" by blast
    let ?s3 = "s2\<lparr>trace := trace s2 @ [Info err]\<rparr>"
    have "runScript sys cmd opt s = (outcome (status p), ?s3)"
      using s2(1) err
      by (auto simp: runScript_def andThen_def emit_def lift_def Let_def p_def)
    moreover have "config ?s3 = config s" "cache ?s3 = cache s" "files ?s3 = disk p"
      "piped ?s3 = piped s @ stdout p"
      using a b by (simp_all add: piped_def)
    moreover have "trace ?s3 = trace s @ Spawn cmd opt # (post @ [Info err])"
      "steps (post @ [Info err]) = []"
      using post by simp_all
    ultimately show ?thesis unfolding p_def by blast
  qed
qed

lemma clone_effect:
  "\<exists>s'. clone sys repo key s =
          ((case config s of
              None \<Rightarrow> Inl TypeError
            | Some cfg \<Rightarrow>
                (case lookup (builtins sys) cfg ''base'' of
                   Some (Data (JStr b)) \<Rightarrow>
                     outcome (status (runscript sys (clone_command repo b key)
                       \<lparr>opt_env = clone_env sys, opt_cwd = None\<rparr> (files s)))
                 | _ \<Rightarrow> Inl TypeError)), s') \<and>
        config s' = config s \<and> cache s' = cache s \<and>
        (case config s of
           None \<Rightarrow> s' = s
         | Some cfg \<Rightarrow>
             (case lookup (builtins sys) cfg ''base'' of
                Some (Data (JStr b)) \<Rightarrow>
                  files s' = disk (runscript sys (clone_command repo b key)
                       \<lparr>opt_env = clone_env sys, opt_cwd = None\<rparr> (files s)) \<and>
                  piped s' = piped s @ stdout (runscript sys (clone_command repo b key)
                       \<lparr>opt_env = clone_env sys, opt_cwd = None\<rparr> (files s)) \<and>
                  (\<exists>pre post. trace s' = trace s @ pre @
                      Spawn (clone_command repo b key) \<lparr>opt_env = clone_env sys, opt_cwd = None\<rparr>
                        # post \<and> steps pre = [] \<and> steps post = [])
              | _ \<Rightarrow> s' = s))"
proof (cases "config s")
  case None
  then show ?thesis by (simp add: clone_def io_defs)
next
  case (Some cfg)
  show ?thesis
  proof (cases "\<exists>b. lookup (builtins sys) cfg ''base'' = Some (Data (JStr b))")
    case False
    with Some show ?thesis
      by (auto simp: clone_def io_defs split: option.splits jsval.splits json.splits)
  next
    case True
    then obtain b where b: "lookup (builtins sys) cfg ''base'' = Some (Data (JStr b))" by blast
    let ?opt = "\<lparr>opt_env = clone_env sys, opt_cwd = None\<rparr>"
    let ?s0 = "s\<lparr>trace := trace s @ [Info (''Cloning into '' @ path_join [b, key])]\<rparr>"
    from runScript_effect [of sys "clone_command repo b key" ?opt ?s0]
    obtain s' post where s': "runScript sys (clone_command repo b key) ?opt ?s0 =
        (outcome (status (runscript sys (clone_command repo b key) ?opt (files ?s0))), s')"
      "config s' = config ?s0" "cache s' = cache ?s0"
      "files s' = disk (runscript sys (clone_command repo b key) ?opt (files ?s0))"
      "piped s' = piped ?s0 @ stdout (runscript sys (clone_command repo b key) ?opt (files ?s0))"
      "trace s' = trace ?s0 @ Spawn (clone_command repo b key) ?opt # post" "steps post = []"
      by blast
    have run: "clone sys repo key s = runScript sys (clone_command repo b key) ?opt ?s0"
      using Some b by (simp add: clone_def io_defs clone_command_def)
    have t: "trace s' = trace s @ [Info (''Cloning into '' @ path_join [b, key])] @
               Spawn (clone_command repo b key) ?opt # post"
      "steps [Info (''Cloning into '' @ path_join [b, key])] = []"
      using s'(6) by simp_all
    have p: "piped ?s0 = piped s" by (simp add: piped_def)
    have q: "runScript sys (clone_command repo b key) ?opt ?s0 =
        (outcome (status (runscript sys (clone_command repo b key) ?opt (files s))), s')"
      "config s' = config s" "cache s' = cache s"
      "files s' = disk (runscript sys (clone_command repo b key) ?opt (files s))"
      "piped s' = piped s @ stdout (runscript sys (clone_command repo b key) ?opt (files s))"
      using s'(1-5) p by simp_all
    have "\<exists>pre post. trace s' = trace s @ pre @ Spawn (clone_command repo b key) ?opt # post \<and>
            steps pre = [] \<and> steps post = []"
      using t s'(7) by blast
    with Some b run q show ?thesis
      by (intro exI [of _ s']) simp
  qed
qed

lemma configured_SomeD:
  "configured sys cfg name = Some cmd \<Longrightarrow>
     member (builtins sys) (lookup (builtins sys) cfg ''hooks'') name = Inr (Some cmd) \<and>
     truthy (Some cmd)"
  by (auto simp: configured_def split: sum.splits option.splits if_splits)

lemma runHook_unconfigured:
  assumes "config s = Some cfg" and "configured sys cfg name = None"
  shows "runHook sys name key s =
           ((case member (builtins sys) (lookup (builtins sys) cfg ''hooks'') name of
               Inl e \<Rightarrow> Inl e
             | Inr hook \<Rightarrow> Inr ()), s)"
  using assms
  by (auto simp: runHook_def io_defs configured_def split: sum.splits option.splits if_splits)

lemma runHook_body:
  assumes "config s = Some cfg" and "configured sys cfg name = Some cmd"
  shows "runHook sys name key s =
           andThen (cache_get sys (Some key)) (\<lambda>known.
             andThen (if truthy (Some (Data known))
                      then lift (case lookup (builtins sys) cfg ''base'' of
                                   Some (Data (JStr base)) \<Rightarrow> Inr (path_join [base, key])
                                 | _ \<Rightarrow> Inl TypeError)
                      else ret key) (\<lambda>cwd.
             andThen (if cwd \<noteq> [] then fs_exists sys cwd else ret False) (\<lambda>found.
             andThen (emit (Info (''Run hook '' @ name @ '' for '' @ key))) (\<lambda>_.
               runScript sys cmd
                 \<lparr>opt_env = env_object sys ++ hook_env sys cfg name,
                  opt_cwd = (if found then Some cwd else None)\<rparr>)))) s"
  using assms(1) configured_SomeD [OF assms(2)]
  by (simp add: runHook_def the_config_def lift_def andThen_def)

lemma found_effect:
  "\<exists>s'. (if cwd \<noteq> [] then fs_exists sys cwd else ret False) s = (Inr (on_disk (files s) cwd), s') \<and>
        quiet s s' \<and> cache s' = cache s"
proof (cases "cwd = []")
  case True
  then show ?thesis by (simp add: ret_def on_disk_def)
next
  case False
  with fs_exists_effect [of sys cwd s] show ?thesis by simp
qed

text \<open>
  A configured hook, with the index at hand and a string as base where the key is
  known: \<^verbatim>\<open>runHook\<close> runs the hook's command with the environment and the working
  directory it has worked out, and ends as the child does.
\<close>

lemma runHook_spawn:
  assumes cfg: "config s = Some cfg" and cmd: "configured sys cfg name = Some cmd"
    and idx: "index_of sys s = Some idx"
    and base: "idx key \<noteq> None \<longrightarrow> lookup (builtins sys) cfg ''base'' = Some (Data (JStr b))"
  defines "opt \<equiv> \<lparr>opt_env = env_object sys ++ hook_env sys cfg name,
                   opt_cwd = (let candidate = (if idx key \<noteq> None then path_join [b, key] else key)
                              in if on_disk (files s) candidate then Some candidate else None)\<rparr>"
  shows "\<exists>s' pre post.
           runHook sys name key s = (outcome (status (runscript sys cmd opt (files s))), s') \<and>
           config s' = config s \<and> cache s' = Some idx \<and>
           files s' = disk (runscript sys cmd opt (files s)) \<and>
           piped s' = piped s @ stdout (runscript sys cmd opt (files s)) \<and>
           trace s' = trace s @ pre @ Spawn cmd opt # post \<and> steps pre = [] \<and> steps post = []"
proof -
  define cwd where "cwd = (if idx key \<noteq> None then path_join [b, key] else key)"
  have opt: "opt = \<lparr>opt_env = env_object sys ++ hook_env sys cfg name,
                    opt_cwd = (if on_disk (files s) cwd then Some cwd else None)\<rparr>"
    by (simp add: opt_def cwd_def Let_def)
  from cache_get_effect [of s sys "Some key"] idx
  obtain s1 where s1: "quiet s s1" "cache_get sys (Some key) s = (Inr (JBool (idx key \<noteq> None)), s1)"
    "cache s1 = Some idx"
    by auto
  have c: "(if truthy (Some (Data (JBool (idx key \<noteq> None))))
            then lift (case lookup (builtins sys) cfg ''base'' of
                         Some (Data (JStr base)) \<Rightarrow> Inr (path_join [base, key])
                       | _ \<Rightarrow> Inl TypeError)
            else ret key) s1 = (Inr cwd, s1)"
    using base by (auto simp: cwd_def lift_def ret_def)
  from found_effect [of cwd sys s1]
  obtain s2 where s2: "(if cwd \<noteq> [] then fs_exists sys cwd else ret False) s1 =
      (Inr (on_disk (files s1) cwd), s2)" "quiet s1 s2" "cache s2 = cache s1"
    by blast
  have f1: "files s1 = files s" using s1(1) by (simp add: quiet_def)
  let ?s3 = "s2\<lparr>trace := trace s2 @ [Info (''Run hook '' @ name @ '' for '' @ key)]\<rparr>"
  have q3: "quiet s2 ?s3" by (simp add: quiet_def piped_def)
  have q: "quiet s ?s3" using s1(1) s2(2) q3 by (blast intro: quiet_trans)
  have run: "runHook sys name key s = runScript sys cmd opt ?s3"
    unfolding runHook_body [OF cfg cmd] opt
    using s1(2) c s2(1) f1 by (simp add: andThen_def emit_def)
  from runScript_effect [of sys cmd opt ?s3]
  obtain s' post where s': "runScript sys cmd opt ?s3 =
        (outcome (status (runscript sys cmd opt (files ?s3))), s')"
      "config s' = config ?s3" "cache s' = cache ?s3"
      "files s' = disk (runscript sys cmd opt (files ?s3))"
      "piped s' = piped ?s3 @ stdout (runscript sys cmd opt (files ?s3))"
      "trace s' = trace ?s3 @ Spawn cmd opt # post" "steps post = []"
    by blast
  from q have f3: "files ?s3 = files s" "config ?s3 = config s" "piped ?s3 = piped s"
    by (simp_all add: quiet_def)
  from q obtain pre where pre: "trace ?s3 = trace s @ pre" "steps pre = []"
    by (auto simp: quiet_def)
  have "cache s' = Some idx" using s'(3) s2(3) s1(3) by simp
  moreover have "trace s' = trace s @ pre @ Spawn cmd opt # post"
    using s'(6) pre(1) by simp
  ultimately show ?thesis
    using run s'(1,2,4,5,7) f3 pre(2) by (metis (no_types, lifting))
qed

lemma runHook_early:
  assumes cfg: "config s = Some cfg" and cmd: "configured sys cfg name = Some cmd"
    and idx: "index_of sys s = None \<or>
              (\<exists>idx. index_of sys s = Some idx \<and> idx key \<noteq> None \<and>
                 (\<forall>b. lookup (builtins sys) cfg ''base'' \<noteq> Some (Data (JStr b))))"
  shows "\<exists>e s'. runHook sys name key s = (Inl e, s') \<and> quiet s s' \<and>
           (cache s' = cache s \<or> (cache s = None \<and> cache s' = persisted_index sys s))"
proof -
  from cache_get_effect [of s sys "Some key"]
  obtain s1 where s1: "quiet s s1"
    "cache_get sys (Some key) s =
          ((case index_of sys s of
              Some idx \<Rightarrow> Inr (case Some key of None \<Rightarrow> JObj idx | Some k \<Rightarrow> JBool (idx k \<noteq> None))
            | None \<Rightarrow>
                (case files s (cachePath sys) of
                   Some (File c) \<Rightarrow> Inl SyntaxError
                 | _ \<Rightarrow> Inl IOError)), s1)"
    "(case index_of sys s of
           Some idx \<Rightarrow> cache s1 = Some idx
         | None \<Rightarrow> cache s1 = None \<and> cache s = None)"
    by blast
  from idx show ?thesis
  proof
    assume n: "index_of sys s = None"
    with s1 have "\<exists>e. runHook sys name key s = (Inl e, s1)" "cache s1 = cache s"
      unfolding runHook_body [OF cfg cmd]
      by (auto simp: andThen_def split: option.splits node.splits)
    with s1(1) show ?thesis by blast
  next
    assume "\<exists>idx. index_of sys s = Some idx \<and> idx key \<noteq> None \<and>
                 (\<forall>b. lookup (builtins sys) cfg ''base'' \<noteq> Some (Data (JStr b)))"
    then obtain idx where i: "index_of sys s = Some idx" "idx key \<noteq> None"
      "\<forall>b. lookup (builtins sys) cfg ''base'' \<noteq> Some (Data (JStr b))"
      by blast
    from i s1 have "runHook sys name key s = (Inl TypeError, s1)" "cache s1 = Some idx"
      unfolding runHook_body [OF cfg cmd]
      by (auto simp: andThen_def lift_def split: option.splits jsval.splits json.splits)
    moreover from i(1) have "cache s = Some idx \<or> (cache s = None \<and> persisted_index sys s = Some idx)"
      by (auto simp: index_of_def split: option.splits)
    ultimately show ?thesis using s1(1) by auto
  qed
qed

lemma outcome_Inr [simp]: "(outcome st = Inr u) = (st = Exited)"
  by (cases st rule: outcome.cases) simp_all

lemma hook_steps_simps:
  "configured sys cfg name = None \<Longrightarrow> hook_steps sys cfg name = []"
  "configured sys cfg name = Some cmd \<Longrightarrow> hook_steps sys cfg name = [Run cmd]"
  by (simp_all add: hook_steps_def)

lemma index_of_cases:
  assumes "index_of sys s = Some idx"
  shows "cache s = Some idx \<or> (cache s = None \<and> persisted_index sys s = Some idx)"
  using assms by (auto simp: index_of_def split: option.splits)

lemma runHook_cases:
  assumes run: "runHook sys name key s = (r, s')"
  obtains (unloaded) "config s = None" "r = Inl TypeError" "s' = s"
  | (unconfigured) cfg where "config s = Some cfg" "configured sys cfg name = None" "s' = s"
  | (early) cfg cmd e where "config s = Some cfg" "configured sys cfg name = Some cmd"
      "r = Inl e" "quiet s s'"
      "cache s' = cache s \<or> (cache s = None \<and> cache s' = persisted_index sys s)"
  | (spawned) cfg cmd idx opt pre post where "config s = Some cfg"
      "configured sys cfg name = Some cmd" "index_of sys s = Some idx"
      "r = outcome (status (runscript sys cmd opt (files s)))"
      "config s' = config s" "cache s' = Some idx"
      "files s' = disk (runscript sys cmd opt (files s))"
      "piped s' = piped s @ stdout (runscript sys cmd opt (files s))"
      "trace s' = trace s @ pre @ Spawn cmd opt # post" "steps pre = []" "steps post = []"
proof (cases "config s")
  case None
  with run have "r = Inl TypeError" "s' = s"
    by (auto simp: runHook_def io_defs)
  with None show ?thesis by (rule unloaded)
next
  case (Some cfg)
  note cfg = this
  show ?thesis
  proof (cases "configured sys cfg name")
    case None
    from runHook_unconfigured [OF cfg None, of key] run have "s' = s" by simp
    with cfg None show ?thesis by (rule unconfigured)
  next
    case (Some cmd)
    note cmd = this
    show ?thesis
    proof (cases "index_of sys s = None \<or>
              (\<exists>idx. index_of sys s = Some idx \<and> idx key \<noteq> None \<and>
                 (\<forall>b. lookup (builtins sys) cfg ''base'' \<noteq> Some (Data (JStr b))))")
      case True
      from runHook_early [OF cfg cmd True] run
      obtain e where "r = Inl e" "quiet s s'"
        "cache s' = cache s \<or> (cache s = None \<and> cache s' = persisted_index sys s)"
        by auto
      with cfg cmd show ?thesis by (rule early)
    next
      case False
      then obtain idx where idx: "index_of sys s = Some idx" by auto
      with False obtain b where
        b: "idx key \<noteq> None \<longrightarrow> lookup (builtins sys) cfg ''base'' = Some (Data (JStr b))"
        by auto
      from runHook_spawn [OF cfg cmd idx b] run
      obtain opt pre post where
        "r = outcome (status (runscript sys cmd opt (files s)))"
        "config s' = config s" "cache s' = Some idx"
        "files s' = disk (runscript sys cmd opt (files s))"
        "piped s' = piped s @ stdout (runscript sys cmd opt (files s))"
        "trace s' = trace s @ pre @ Spawn cmd opt # post" "steps pre = []" "steps post = []"
        by (metis (no_types, lifting) prod.inject)
      with cfg cmd idx show ?thesis by (rule spawned)
    qed
  qed
qed

lemma runHook_effect:
  assumes "runHook sys name key s = (r, s')"
  shows "config s' = config s
       \<and> (cache s' = cache s \<or> (cache s = None \<and> cache s' = persisted_index sys s))
       \<and> (\<exists>evs. trace s' = trace s @ evs \<and>
            (case config s of
               None \<Rightarrow> steps evs = [] \<and> r \<noteq> Inr ()
             | Some cfg \<Rightarrow>
                 (r = Inr () \<longrightarrow> steps evs = hook_steps sys cfg name) \<and>
                 prefix (steps evs) (hook_steps sys cfg name)))"
  using assms
proof (cases rule: runHook_cases)
  case unloaded
  then show ?thesis by simp
next
  case (unconfigured cfg)
  then show ?thesis by (simp add: hook_steps_simps)
next
  case (early cfg cmd e)
  then show ?thesis by (auto simp: quiet_def)
next
  case (spawned cfg cmd idx opt pre post)
  from index_of_cases [OF spawned(3)] spawned(6)
  have "cache s' = cache s \<or> (cache s = None \<and> cache s' = persisted_index sys s)"
    by auto
  moreover have "steps (pre @ Spawn cmd opt # post) = [Run cmd]"
    using spawned(10,11) by simp
  ultimately show ?thesis
    using spawned(1,2,5,9) by (simp add: hook_steps_simps)
qed


subsection \<open>Hooks\<close>

lemma sample_state_fields:
  "config sample_state = Some sample_config"
  "cache sample_state = Some sample_index"
  "trace sample_state = []"
  "in_flight sample_state = []"
  by (simp_all add: sample_state_def)

lemma sample_index_of: "index_of sample_sys sample_state = Some sample_index"
  by (simp add: index_of_def sample_state_def)

lemma sample_lookup:
  "lookup (builtins sample_sys) sample_config ''base'' = Some (Data (JStr ''/srv''))"
  "lookup (builtins sample_sys) sample_config ''preadd'' = Some (Data (JStr ''quiet''))"
  "lookup (builtins sample_sys) sample_config ''hooks'' =
     Some (Data (JObj (Map.empty(''preadd'' \<mapsto> JStr ''echo pre''))))"
  by (simp_all add: lookup_def sample_config_def)

lemma sample_configured:
  "configured sample_sys sample_config ''preadd'' = Some (Data (JStr ''echo pre''))"
  "configured sample_sys sample_config ''postadd'' = None"
  "configured sample_sys sample_config ''constructor'' = Some (Native ''constructor'')"
  by (simp_all add: configured_def sample_lookup inherited_def object_prototype_def
      object_prototype_names_def)




text \<open>
  C7. For a configured hook, the candidate working directory is \<^verbatim>\<open>base/key\<close> when
  the index has the key and the key itself otherwise; the child process gets the
  candidate as its working directory if and only if it exists on disk, and no working
  directory otherwise. The result of \<^verbatim>\<open>runHook\<close> and the file system it leaves are
  those of the subprocess runner called with exactly these options.
\<close>

theorem runHook_working_directory:
  assumes "config s = Some cfg" and "configured sys cfg name = Some cmd"
    and "index_of sys s = Some idx"
    and "idx key \<noteq> None \<longrightarrow> lookup (builtins sys) cfg ''base'' = Some (Data (JStr b))"
  shows "\<exists>s' pre opt post.
           opt = \<lparr>opt_env = env_object sys ++ hook_env sys cfg name,
                  opt_cwd =
                    (let candidate = (if idx key \<noteq> None then path_join [b, key] else key)
                     in if on_disk (files s) candidate then Some candidate else None)\<rparr> \<and>
           runHook sys name key s = (outcome (status (runscript sys cmd opt (files s))), s') \<and>
           files s' = disk (runscript sys cmd opt (files s)) \<and>
           piped s' = piped s @ stdout (runscript sys cmd opt (files s)) \<and>
           trace s' = trace s @ pre @ Spawn cmd opt # post \<and>
           steps pre = [] \<and> steps post = []"
  using runHook_spawn [OF assms] by blast

text \<open>
  C7 at the sample installation: a key of the index whose directory exists.
\<close>

theorem runHook_working_directory_witness:
  "\<exists>s' pre opt post.
     runHook sample_sys ''preadd'' ''example.com/org/repo'' sample_state =
       (outcome (status (runscript sample_sys (Data (JStr ''echo pre'')) opt (files sample_state))), s') \<and>
     trace s' = pre @ Spawn (Data (JStr ''echo pre'')) opt # post \<and>
     opt_cwd opt = Some ''/srv/example.com/org/repo''"
proof -
  have b: "sample_index ''example.com/org/repo'' \<noteq> None \<longrightarrow>
           lookup (builtins sample_sys) sample_config ''base'' = Some (Data (JStr ''/srv''))"
    by (simp add: sample_lookup)
  have p: "path_join [''/srv'', ''example.com/org/repo''] = ''/srv/example.com/org/repo''"
    by (simp add: path_defs)
  have d: "on_disk (files sample_state) ''/srv/example.com/org/repo''"
    by (simp add: on_disk_def sample_state_def)
  have i: "sample_index ''example.com/org/repo'' \<noteq> None"
    by (simp add: sample_index_def)
  from runHook_working_directory [OF sample_state_fields(1) sample_configured(1)
      sample_index_of b]
  obtain s' pre opt post where
    "opt = \<lparr>opt_env = env_object sample_sys ++ hook_env sample_sys sample_config ''preadd'',
            opt_cwd =
              (let candidate = (if sample_index ''example.com/org/repo'' \<noteq> None
                                then path_join [''/srv'', ''example.com/org/repo'']
                                else ''example.com/org/repo'')
               in if on_disk (files sample_state) candidate then Some candidate else None)\<rparr>"
    "runHook sample_sys ''preadd'' ''example.com/org/repo'' sample_state =
       (outcome (status (runscript sample_sys (Data (JStr ''echo pre'')) opt (files sample_state))), s')"
    "trace s' = trace sample_state @ pre @ Spawn (Data (JStr ''echo pre'')) opt # post"
    by blast
  note run = this
  have "opt_cwd opt = Some ''/srv/example.com/org/repo''"
    unfolding run(1) using i p d by (simp add: Let_def)
  moreover from run(3) have "trace s' = pre @ Spawn (Data (JStr ''echo pre'')) opt # post"
    by (simp add: sample_state_fields)
  ultimately show ?thesis using run(2) by blast
qed

lemmas run_defs = io_defs runHook_def runScript_def cache_get_def cache_load_def fs_exists_def
  await_def suspend_def Let_def on_disk_def



text \<open>
  C5. The hooks table of the sample configuration has no entry \<^verbatim>\<open>constructor\<close>,
  but the table is an object and inherits a member of that name, which
  \<^verbatim>\<open>runHook\<close> takes for the hook: it asks the index for the key, looks for the key
  on disk, hands the inherited function to the subprocess runner and fails.
\<close>

theorem runHook_inherited_name:
  "own_props (JObj (Map.empty(''preadd'' \<mapsto> JStr ''echo pre''))) ''constructor'' = None \<and>
   lookup (builtins sample_sys) sample_config ''hooks'' =
     Some (Data (JObj (Map.empty(''preadd'' \<mapsto> JStr ''echo pre'')))) \<and>
   runHook sample_sys ''constructor'' ''k'' sample_state =
     (Inl TypeError,
      sample_state\<lparr>trace :=
        [CacheGet (Some ''k''), Exists ''k'', Info ''Run hook constructor for k'',
         Spawn (Native ''constructor'')
           \<lparr>opt_env = env_object sample_sys ++ hook_env sample_sys sample_config ''constructor'',
            opt_cwd = None\<rparr>]\<rparr>)"
proof -
  have "runHook sample_sys ''constructor'' ''k'' sample_state =
     (Inl TypeError,
      sample_state\<lparr>trace :=
        [CacheGet (Some ''k''), Exists ''k'', Info ''Run hook constructor for k'',
         Spawn (Native ''constructor'')
           \<lparr>opt_env = env_object sample_sys ++ hook_env sample_sys sample_config ''constructor'',
            opt_cwd = None\<rparr>]\<rparr>)"
    by (simp add: run_defs sample_state_def sample_lookup sample_index_def
        sample_sys_fields(5,11) sample_runscript_def inherited_def object_prototype_def
        object_prototype_names_def)
  then show ?thesis
    by (simp add: sample_lookup)
qed

text \<open>
  A name that is neither a key of the hooks table nor a member of
  \<^verbatim>\<open>Object.prototype\<close>: \<^verbatim>\<open>runHook\<close> returns at once, in the state it was given.
\<close>

lemma runHook_noop:
  assumes "config s = Some cfg"
    and "lookup (builtins sys) cfg ''hooks'' = Some (Data (JObj hooks))"
    and "hooks name = None" and "name \<notin> set object_prototype_names"
  shows "runHook sys name key s = (Inr (), s)"
proof -
  from assms(2-4) have "configured sys cfg name = None"
    by (simp add: configured_def inherited_def object_prototype_def)
  from runHook_unconfigured [OF assms(1) this] assms(2-4) show ?thesis
    by (simp add: inherited_def object_prototype_def)
qed

subsection \<open>The add workflow\<close>


lemma clone_run:
  assumes "clone sys repo key s = (r, s')" and "config s = Some cfg"
    and "lookup (builtins sys) cfg ''base'' = Some (Data (JStr b))"
  shows "r = outcome (status (runscript sys (clone_command repo b key)
                       \<lparr>opt_env = clone_env sys, opt_cwd = None\<rparr> (files s)))"
    and "config s' = config s" and "cache s' = cache s"
    and "files s' = disk (runscript sys (clone_command repo b key)
                       \<lparr>opt_env = clone_env sys, opt_cwd = None\<rparr> (files s))"
    and "piped s' = piped s @ stdout (runscript sys (clone_command repo b key)
                       \<lparr>opt_env = clone_env sys, opt_cwd = None\<rparr> (files s))"
    and "\<exists>evs. trace s' = trace s @ evs \<and> steps evs = [Run (clone_command repo b key)]"
proof -
  from clone_effect [of sys repo key s] assms
  have a: "r = outcome (status (runscript sys (clone_command repo b key)
                       \<lparr>opt_env = clone_env sys, opt_cwd = None\<rparr> (files s)))"
    "config s' = config s" "cache s' = cache s"
    "files s' = disk (runscript sys (clone_command repo b key)
                       \<lparr>opt_env = clone_env sys, opt_cwd = None\<rparr> (files s))"
    "piped s' = piped s @ stdout (runscript sys (clone_command repo b key)
                       \<lparr>opt_env = clone_env sys, opt_cwd = None\<rparr> (files s))"
    "\<exists>pre post. trace s' = trace s @ pre @
        Spawn (clone_command repo b key) \<lparr>opt_env = clone_env sys, opt_cwd = None\<rparr> # post \<and>
        steps pre = [] \<and> steps post = []"
    by auto
  from a(6) obtain pre post where "trace s' = trace s @ (pre @
        Spawn (clone_command repo b key) \<lparr>opt_env = clone_env sys, opt_cwd = None\<rparr> # post)"
    "steps (pre @ Spawn (clone_command repo b key) \<lparr>opt_env = clone_env sys, opt_cwd = None\<rparr> # post) =
       [Run (clone_command repo b key)]"
    by auto
  then have "\<exists>evs. trace s' = trace s @ evs \<and> steps evs = [Run (clone_command repo b key)]"
    by blast
  with a show "r = outcome (status (runscript sys (clone_command repo b key)
                       \<lparr>opt_env = clone_env sys, opt_cwd = None\<rparr> (files s)))"
    "config s' = config s" "cache s' = cache s"
    "files s' = disk (runscript sys (clone_command repo b key)
                       \<lparr>opt_env = clone_env sys, opt_cwd = None\<rparr> (files s))"
    "piped s' = piped s @ stdout (runscript sys (clone_command repo b key)
                       \<lparr>opt_env = clone_env sys, opt_cwd = None\<rparr> (files s))"
    "\<exists>evs. trace s' = trace s @ evs \<and> steps evs = [Run (clone_command repo b key)]"
    by simp_all
qed

lemma clone_stuck:
  assumes "clone sys repo key s = (r, s')"
    and "\<forall>cfg. config s = Some cfg \<longrightarrow> (\<forall>b. lookup (builtins sys) cfg ''base'' \<noteq> Some (Data (JStr b)))"
  shows "r = Inl TypeError" and "s' = s"
proof -
  from clone_effect [of sys repo key s] assms
  have "r = Inl TypeError \<and> s' = s"
    by (cases "config s") (auto split: option.splits jsval.splits json.splits)
  then show "r = Inl TypeError" and "s' = s" by simp_all
qed



text \<open>
  C1. When the \<^verbatim>\<open>preadd\<close> hook has returned and the clone step fails, \<^verbatim>\<open>addRepo\<close>
  ends there with the error of the clone: the index in memory is what it was (or what
  the \<^verbatim>\<open>preadd\<close> hook loaded from the file), so a key absent before is absent
  after; the log has no \<open>set\<close> and no \<open>dump\<close>; and after the steps of the \<^verbatim>\<open>preadd\<close>
  hook the only child process is \<^verbatim>\<open>git clone\<close>, so no \<^verbatim>\<open>postadd\<close> hook ran.
\<close>

theorem addRepo_clone_failure:
  assumes "runHook sys ''preadd'' key s = (Inr (), s1)"
    and "clone sys repo key s1 = (Inl e, s2)"
  shows "addRepo sys repo key s = (Inl e, s2)
       \<and> (cache s2 = cache s \<or> (cache s = None \<and> cache s2 = persisted_index sys s))
       \<and> (\<forall>idx. cache s = Some idx \<longrightarrow> idx key = None \<longrightarrow>
             (\<exists>idx'. cache s2 = Some idx' \<and> idx' key = None))
       \<and> (\<exists>cfg evs. config s = Some cfg \<and> trace s2 = trace s @ evs
             \<and> (\<forall>k v. Set k v \<notin> set (steps evs)) \<and> Dump \<notin> set (steps evs)
             \<and> (steps evs = hook_steps sys cfg ''preadd'' \<or>
                 (\<exists>b. lookup (builtins sys) cfg ''base'' = Some (Data (JStr b)) \<and>
                   steps evs = hook_steps sys cfg ''preadd'' @ [Run (clone_command repo b key)])))"
proof -
  have run: "addRepo sys repo key s = (Inl e, s2)"
    using assms by (simp add: addRepo_def andThen_def)
  note h = runHook_effect [OF assms(1)]
  from h obtain cfg where cfg: "config s = Some cfg" "config s1 = Some cfg"
    by (cases "config s") auto
  from h cfg obtain evs1 where evs1: "trace s1 = trace s @ evs1"
    "steps evs1 = hook_steps sys cfg ''preadd''"
    by auto
  have c: "cache s2 = cache s1 \<and>
    (\<exists>evs2. trace s2 = trace s1 @ evs2 \<and>
       (steps evs2 = [] \<or>
        (\<exists>b. lookup (builtins sys) cfg ''base'' = Some (Data (JStr b)) \<and>
             steps evs2 = [Run (clone_command repo b key)])))"
  proof (cases "\<exists>b. lookup (builtins sys) cfg ''base'' = Some (Data (JStr b))")
    case True
    then obtain b where b: "lookup (builtins sys) cfg ''base'' = Some (Data (JStr b))" by blast
    from clone_run(3,6) [OF assms(2) cfg(2) b] b show ?thesis by blast
  next
    case False
    with cfg(2) have "\<forall>cfg. config s1 = Some cfg \<longrightarrow>
        (\<forall>b. lookup (builtins sys) cfg ''base'' \<noteq> Some (Data (JStr b)))"
      by simp
    from clone_stuck(2) [OF assms(2) this] show ?thesis by simp
  qed
  then obtain evs2 where evs2: "trace s2 = trace s1 @ evs2"
    "steps evs2 = [] \<or>
        (\<exists>b. lookup (builtins sys) cfg ''base'' = Some (Data (JStr b)) \<and>
             steps evs2 = [Run (clone_command repo b key)])"
    by blast
  have index: "cache s2 = cache s \<or> (cache s = None \<and> cache s2 = persisted_index sys s)"
    using h c by auto
  have hs: "(\<forall>k v. Set k v \<notin> set (hook_steps sys cfg ''preadd'')) \<and>
            Dump \<notin> set (hook_steps sys cfg ''preadd'')"
    by (auto simp: hook_steps_def split: option.splits)
  have t: "trace s2 = trace s @ (evs1 @ evs2)" using evs1(1) evs2(1) by simp
  have silent: "(\<forall>k v. Set k v \<notin> set (steps (evs1 @ evs2))) \<and> Dump \<notin> set (steps (evs1 @ evs2))"
    using evs1(2) evs2(2) hs by auto
  have shape: "steps (evs1 @ evs2) = hook_steps sys cfg ''preadd'' \<or>
                 (\<exists>b. lookup (builtins sys) cfg ''base'' = Some (Data (JStr b)) \<and>
                   steps (evs1 @ evs2) = hook_steps sys cfg ''preadd'' @ [Run (clone_command repo b key)])"
    using evs1(2) evs2(2) by auto
  from index have entry: "\<forall>idx. cache s = Some idx \<longrightarrow> idx key = None \<longrightarrow>
             (\<exists>idx'. cache s2 = Some idx' \<and> idx' key = None)"
    by auto
  from cfg(1) t silent shape show ?thesis using run index entry by blast
qed


lemmas add_defs = addRepo_def clone_def cache_set_def cache_dump_def fs_writeFile_def
  clone_command_def



lemma sample_preadd:
  "runHook sample_sys ''preadd'' ''bad'' sample_state =
     (Inr (), sample_state\<lparr>trace :=
        [CacheGet (Some ''bad''), Exists ''bad'', Info ''Run hook preadd for bad'',
         Spawn (Data (JStr ''echo pre''))
           \<lparr>opt_env = env_object sample_sys ++ hook_env sample_sys sample_config ''preadd'',
            opt_cwd = None\<rparr>,
         ChildOut ''pre'']\<rparr>)"
  by (simp add: run_defs sample_state_def sample_lookup sample_index_def
      sample_sys_fields(5,11) sample_runscript_def)

lemma sample_clone_fails:
  "clone sample_sys ''bad'' ''bad''
     (sample_state\<lparr>trace :=
        [CacheGet (Some ''bad''), Exists ''bad'', Info ''Run hook preadd for bad'',
         Spawn (Data (JStr ''echo pre''))
           \<lparr>opt_env = env_object sample_sys ++ hook_env sample_sys sample_config ''preadd'',
            opt_cwd = None\<rparr>,
         ChildOut ''pre'']\<rparr>) =
     (Inl (ProcessError (Some ''fatal: repository not found'')),
      sample_state\<lparr>trace :=
        [CacheGet (Some ''bad''), Exists ''bad'', Info ''Run hook preadd for bad'',
         Spawn (Data (JStr ''echo pre''))
           \<lparr>opt_env = env_object sample_sys ++ hook_env sample_sys sample_config ''preadd'',
            opt_cwd = None\<rparr>,
         ChildOut ''pre'',
         Info ''Cloning into /srv/bad'',
         Spawn (Data (JStr ''git clone bad /srv/bad > /dev/null''))
           \<lparr>opt_env = clone_env sample_sys, opt_cwd = None\<rparr>,
         Info ''fatal: repository not found'']\<rparr>)"
  by (simp add: run_defs add_defs sample_state_def sample_lookup
      sample_sys_fields(5,11) sample_runscript_def path_defs)

text \<open>
  C1 at the sample installation, whose \<^verbatim>\<open>git\<close> cannot clone \<^verbatim>\<open>bad\<close>.
\<close>

theorem addRepo_clone_failure_witness:
  "\<exists>s2. addRepo sample_sys ''bad'' ''bad'' sample_state =
           (Inl (ProcessError (Some ''fatal: repository not found'')), s2) \<and>
         cache s2 = cache sample_state \<and>
         (\<exists>idx. cache s2 = Some idx \<and> idx ''bad'' = None)"
proof -
  from addRepo_clone_failure [OF sample_preadd sample_clone_fails]
  show ?thesis
    by (simp add: sample_state_def sample_index_def)
qed




subsection \<open>Loading the configuration\<close>

lemmas load_defs = loadConfig_def io_defs mkdir_def fs_exists_def readJSON_def fs_readFile_def
  fs_writeFile_def await_def suspend_def Let_def on_disk_def

text \<open>
  When the configuration file exists and what it holds can be resolved,
  \<^verbatim>\<open>loadConfig\<close> keeps the resolved configuration and returns: with the defaults
  merged in, the base it tests is always there.
\<close>

lemma loadConfig_existing_file:
  assumes "posix_env sys"
    and "\<forall>c. files s (configDir sys) \<noteq> Some (File c)"
    and "configPath sys \<noteq> configDir sys" and "configPath sys \<noteq> []"
    and "files s (configPath sys) = Some (File text)"
    and "json_parse sys text = Some loaded"
    and "resolveConfig sys loaded (defaults sys) = Inr cfg"
    and "in_flight s = []"
  shows "loadConfig sys s =
           (Inr (), s\<lparr>config := Some cfg,
                      files := (files s)(configDir sys \<mapsto> Dir),
                      trace := trace s @ [Mkdir (configDir sys), Exists (configPath sys),
                                 ReadFile (configPath sys)]\<rparr>)"
  using assms resolved_base_truthy [OF assms(7,1)]
  by (auto simp: load_defs split: option.splits node.splits)

text \<open>
  When there is no configuration file, \<^verbatim>\<open>loadConfig\<close> prompts for the base, keeps
  the answer resolved against the defaults, and writes the new configuration file.
\<close>

lemma loadConfig_first_run:
  assumes "\<forall>c. files s (configDir sys) \<noteq> Some (File c)"
    and "configPath sys \<noteq> configDir sys"
    and "files s (configPath sys) = None"
    and "resolveConfig sys (JObj (Map.empty(''base'' \<mapsto> JStr (prompt sys (home sys @ ''/projj'')))))
           (defaults sys) = Inr cfg"
    and "in_flight s = []"
  shows "loadConfig sys s =
           (Inr (), s\<lparr>config := Some cfg,
                      files := (files s)(configDir sys \<mapsto> Dir,
                                 configPath sys \<mapsto> File (json_stringify sys (JObj (own cfg)))),
                      trace := trace s @ [Mkdir (configDir sys), Exists (configPath sys),
                                 Prompt ''Set base directory:'',
                                 WriteFile (configPath sys) (json_stringify sys (JObj (own cfg)))]\<rparr>)"
  using assms
  by (auto simp: load_defs split: option.splits node.splits)

text \<open>
  After \<^verbatim>\<open>init\<close> the command has its configuration and its index, which is what
  the operations above start from.
\<close>

lemma loadConfig_sets_config:
  assumes "loadConfig sys s = (Inr (), s')"
  shows "config s' \<noteq> None"
proof -
  have w: "\<And>p c s0 s1. fs_writeFile sys p c s0 = (Inr (), s1) \<Longrightarrow> config s1 = config s0"
  proof -
    fix p c s0 s1
    assume a: "fs_writeFile sys p c s0 = (Inr (), s1)"
    from fs_writeFile_effect [of s0 p c sys] obtain s2 where
      "quiet s0 s2" "fs_writeFile sys p c s0 =
          (case files s0 p of
             Some Dir \<Rightarrow> (Inl IOError, s2)
           | _ \<Rightarrow> (Inr (), s2\<lparr>files := (files s0)(p \<mapsto> File c)\<rparr>))"
      by blast
    with a show "config s1 = config s0"
      by (auto simp: quiet_def split: option.splits node.splits)
  qed
  from assms show ?thesis
    unfolding loadConfig_def Let_def
    by (auto simp: andThen_def lift_def split: prod.splits sum.splits if_splits dest!: w)
qed

lemma init_ready:
  assumes "init sys s = (Inr (), s')"
  shows "\<exists>cfg idx. config s' = Some cfg \<and> index_of sys s' = Some idx"
  using assms unfolding init_def
proof (cases rule: andThenE)
  case (go u s1)
  from loadConfig_sets_config [of sys s s1] go(1) obtain cfg where cfg: "config s1 = Some cfg"
    by auto
  from go(2) show ?thesis
  proof (cases rule: andThenE)
    case (go v s2)
    from cache_get_effect [of s1 sys None] go(1)
    have "quiet s1 s2" "\<exists>idx. cache s2 = Some idx"
      by (auto split: option.splits node.splits)
    with cfg go(2) show ?thesis
      by (auto simp: ret_def index_of_def quiet_def)
  qed simp
qed simp

text \<open>
  C4. A configuration file that holds an empty object defines no base. \<^verbatim>\<open>loadConfig\<close>
  does not prompt and writes no file then: it returns with the base of the defaults,
  and the file still holds the empty object.
\<close>

theorem loadConfig_file_without_base:
  "own_props (JObj Map.empty) ''base'' = None \<and>
   json_parse sample_sys ''{}'' = Some (JObj Map.empty) \<and>
   (\<exists>s' cfg. loadConfig sample_sys fresh_state = (Inr (), s') \<and>
     config s' = Some cfg \<and> own cfg ''base'' = Some (JStr ''/home/u/projj'') \<and>
     files s' ''/home/u/.projj/config.json'' = Some (File ''{}'') \<and>
     trace s' = [Mkdir ''/home/u/.projj'', Exists ''/home/u/.projj/config.json'',
                 ReadFile ''/home/u/.projj/config.json''])"
  by (simp add: load_defs sample_paths resolveConfig_def
      object_assign_def assign_source_def set_proto_def lookup_def defaults_def as_string_def
      map_add_def sample_sys_fields fresh_state_def inherited_def object_prototype_def
      object_prototype_names_def)

end
